theory Spec2Isabelle
  imports Main
begin

section \<open>Query parameter validation (resolwe/flow/filters.py)\<close>

text \<open>
  The filter sets of \<^verbatim>\<open>filters.py\<close> that inherit \<^verbatim>\<open>CheckQueryParamsMixin\<close>. Only
  \<^verbatim>\<open>RelationFilter\<close> overrides \<^verbatim>\<open>get_always_allowed_arguments\<close>; every other class
  inherits the method of the mixin.
\<close>

datatype filter_class =
    BaseResolweFilter
  | DescriptorSchemaFilter
  | BaseCollectionFilter
  | CollectionFilter
  | EntityFilter
  | ProcessFilter
  | DataFilter
  | RelationFilter

text \<open>
  The error handed to \<^verbatim>\<open>form.add_error\<close>. The message of the \<^verbatim>\<open>ParseError\<close> joins the
  two Python sets in their iteration order, which the language leaves open, so the model
  keeps the two sets themselves: the unsupported names and the allowed names.
\<close>

datatype form_error =
    ParseError "string set" "string set"
  | FieldError string

text \<open>
  What \<^verbatim>\<open>validate_query_params\<close> reads and writes of a filter set: its class, the names
  returned by \<^verbatim>\<open>get_filters().keys()\<close>, the query parameters of the request as (name,
  value) pairs, whether the form is bound, and the errors of its form.
\<close>

record filterset =
  cls :: filter_class
  get_filters :: "string list"
  query_params :: "(string \<times> string) list"
  is_bound :: bool
  form_errors :: "form_error list"

definition CheckQueryParamsMixin_get_always_allowed_arguments :: "string list" where
  "CheckQueryParamsMixin_get_always_allowed_arguments =
     [''fields'', ''format'', ''limit'', ''offset'', ''ordering'']"

fun get_always_allowed_arguments :: "filter_class \<Rightarrow> string list" where
  "get_always_allowed_arguments RelationFilter =
     CheckQueryParamsMixin_get_always_allowed_arguments @ [''entity'', ''label'', ''position'']"
| "get_always_allowed_arguments _ = CheckQueryParamsMixin_get_always_allowed_arguments"

definition allowed_params :: "filterset \<Rightarrow> string set" where
  "allowed_params fs = set (get_filters fs) \<union> set (get_always_allowed_arguments (cls fs))"

definition unallowed :: "filterset \<Rightarrow> string set" where
  "unallowed fs = set (map fst (query_params fs)) - allowed_params fs"

definition add_error :: "form_error \<Rightarrow> filterset \<Rightarrow> filterset" where
  "add_error e fs = fs\<lparr>form_errors := form_errors fs @ [e]\<rparr>"

definition validate_query_params :: "filterset \<Rightarrow> filterset" where
  "validate_query_params fs =
     (if unallowed fs \<noteq> {}
      then add_error (ParseError (unallowed fs) (allowed_params fs)) fs
      else fs)"

text \<open>
  \<^verbatim>\<open>is_valid\<close> validates the query parameters and then asks the filter set of the
  framework, which answers that the form is bound and has no error.
\<close>

definition is_valid :: "filterset \<Rightarrow> filterset \<times> bool" where
  "is_valid fs =
     (let fs' = validate_query_params fs
      in (fs', is_bound fs' \<and> form_errors fs' = []))"

definition relation_request :: filterset where
  "relation_request =
     \<lparr>cls = RelationFilter,
      get_filters = [''id'', ''category'', ''collection'', ''type''],
      query_params = [(''label'', ''case''), (''category'', ''mutants'')],
      is_bound = True,
      form_errors = []\<rparr>"

definition data_request :: filterset where
  "data_request = relation_request\<lparr>cls := DataFilter\<rparr>"

section \<open>Moving the purged flag (resolwe/flow/migrations/0033\_move\_purged.py)\<close>

text \<open>
  The rows of the two tables the migration touches, before and after it, with the columns
  it reads and writes. Up to migration 0032 the flag \<^verbatim>\<open>purged\<close> is a column of
  \<^verbatim>\<open>Data\<close>; a \<^verbatim>\<open>Data\<close> row refers to its location by a nullable foreign key, whose
  reverse accessor on a location is \<^verbatim>\<open>data\<close>.
\<close>

record data_location_0032 =
  location_id_0032 :: nat

record data_0032 =
  data_id_0032 :: nat
  data_location_0032 :: "nat option"
  data_purged_0032 :: bool

record data_location =
  location_id :: nat
  location_purged :: bool

record data_0033 =
  data_id :: nat
  data_location :: "nat option"

record ('l, 'd) flow_db =
  DataLocation_objects :: "'l list"
  Data_objects :: "'d list"

text \<open>\<^verbatim>\<open>AddField("datalocation", "purged", BooleanField(default=False))\<close>\<close>

definition add_field_purged ::
  "(data_location_0032, data_0032) flow_db \<Rightarrow> (data_location, data_0032) flow_db" where
  "add_field_purged db =
     \<lparr>DataLocation_objects =
        map (\<lambda>l. \<lparr>location_id = location_id_0032 l, location_purged = False\<rparr>)
          (DataLocation_objects db),
      Data_objects = Data_objects db\<rparr>"

text \<open>\<^verbatim>\<open>data_location.data.filter(purged=True).exists()\<close>\<close>

definition data_filter_purged_exists :: "data_0032 list \<Rightarrow> data_location \<Rightarrow> bool" where
  "data_filter_purged_exists ds l =
     (filter (\<lambda>d. data_location_0032 d = Some (location_id l) \<and> data_purged_0032 d = True) ds
        \<noteq> [])"

text \<open>
  \<^verbatim>\<open>data_location.save()\<close> writes the object in memory over the row with its primary
  key, and inserts it when no row has that key.
\<close>

definition save :: "data_location \<Rightarrow> data_location list \<Rightarrow> data_location list" where
  "save row tbl =
     (if location_id row \<in> set (map location_id tbl)
      then map (\<lambda>r. if location_id r = location_id row then row else r) tbl
      else tbl @ [row])"

text \<open>The body of the loop of \<^verbatim>\<open>mark_purged_locations\<close>, for one location.\<close>

definition mark_step ::
  "data_location \<Rightarrow> (data_location, data_0032) flow_db \<Rightarrow> (data_location, data_0032) flow_db"
  where
  "mark_step l db =
     (if data_filter_purged_exists (Data_objects db) l
      then db\<lparr>DataLocation_objects :=
                save (l\<lparr>location_purged := True\<rparr>) (DataLocation_objects db)\<rparr>
      else db)"

text \<open>The loop runs over the rows that \<^verbatim>\<open>DataLocation.objects.all()\<close> returned.\<close>

definition mark_purged_locations ::
  "(data_location, data_0032) flow_db \<Rightarrow> (data_location, data_0032) flow_db" where
  "mark_purged_locations db = fold mark_step (DataLocation_objects db) db"

text \<open>\<^verbatim>\<open>RemoveField("data", "purged")\<close>\<close>

definition remove_field_purged ::
  "(data_location, data_0032) flow_db \<Rightarrow> (data_location, data_0033) flow_db" where
  "remove_field_purged db =
     \<lparr>DataLocation_objects = DataLocation_objects db,
      Data_objects =
        map (\<lambda>d. \<lparr>data_id = data_id_0032 d, data_location = data_location_0032 d\<rparr>)
          (Data_objects db)\<rparr>"

text \<open>The three operations of the migration, in the order of \<^verbatim>\<open>Migration.operations\<close>.\<close>

definition Migration_operations ::
  "(data_location_0032, data_0032) flow_db \<Rightarrow> (data_location, data_0033) flow_db" where
  "Migration_operations db =
     remove_field_purged (mark_purged_locations (add_field_purged db))"

text \<open>A location has purged data when some \<^verbatim>\<open>Data\<close> row that refers to it is purged.\<close>

definition has_purged_data :: "data_0032 list \<Rightarrow> nat \<Rightarrow> bool" where
  "has_purged_data ds i =
     (\<exists>d \<in> set ds. data_location_0032 d = Some i \<and> data_purged_0032 d)"

definition db_0032_example :: "(data_location_0032, data_0032) flow_db" where
  "db_0032_example =
     \<lparr>DataLocation_objects =
        [\<lparr>location_id_0032 = 1\<rparr>, \<lparr>location_id_0032 = 2\<rparr>, \<lparr>location_id_0032 = 3\<rparr>],
      Data_objects =
        [\<lparr>data_id_0032 = 10, data_location_0032 = Some 1, data_purged_0032 = False\<rparr>,
         \<lparr>data_id_0032 = 11, data_location_0032 = Some 2, data_purged_0032 = False\<rparr>,
         \<lparr>data_id_0032 = 12, data_location_0032 = Some 2, data_purged_0032 = True\<rparr>,
         \<lparr>data_id_0032 = 13, data_location_0032 = None, data_purged_0032 = True\<rparr>]\<rparr>"


section \<open>The executor bootstrap (resolwe/flow/executors/\_\_main\_\_.py)\<close>

subsection \<open>Values and collaborators\<close>

text \<open>
  The exceptions of class \<^verbatim>\<open>Exception\<close> that the steps of the bootstrap can raise, and
  what can reach the top of the script: such an exception, or the \<^verbatim>\<open>SystemExit\<close> that
  \<^verbatim>\<open>argparse\<close> raises, which is no \<^verbatim>\<open>Exception\<close>.
\<close>

datatype exception =
    ModuleNotFoundError
  | AttributeError
  | TypeError
  | KeyError
  | FileNotFoundError
  | UnicodeDecodeError
  | RuntimeError string
  | IntegrityError

datatype raised = Exception exception | SystemExit int

datatype pyvalue = PyNone | PyInt int | PyStr string

text \<open>
  A Python \<^verbatim>\<open>str\<close> is a sequence of code points; the bytes of a file are a list of
  characters of eight bits. The encodings are the ones the model knows of those a platform
  may prefer.
\<close>

type_synonym str = "nat list"

datatype encoding = UTF_8 | ISO_8859_1 | US_ASCII

text \<open>
  An executor is an object that may have a \<^verbatim>\<open>run\<close> coroutine, which takes the process
  identifier and the script and returns or raises. A module maps attribute names to
  classes, and calling a class with arguments gives an executor or raises.
\<close>

datatype executor = Executor (run_method: "(pyvalue \<Rightarrow> str \<Rightarrow> exception option) option")

datatype pyclass = PyClass (instantiate: "pyvalue list \<Rightarrow> exception + executor")

type_synonym pymodule = "string \<rightharpoonup> pyclass"

text \<open>
  What \<^verbatim>\<open>parser.parse_args()\<close> does with the command line, for a parser with the one
  positional argument \<^verbatim>\<open>module\<close>: it returns the namespace with the module name, or
  reports a usage error and raises \<^verbatim>\<open>SystemExit(2)\<close>, or prints the help and raises
  \<^verbatim>\<open>SystemExit(0)\<close>.
\<close>

datatype argparse_outcome = Namespace string | Usage_error | Help_requested

text \<open>
  The collaborators of the script, none of which is in this file: the outcome of parsing
  the command line, the name of the package (\<^verbatim>\<open>__package__\<close>), \<^verbatim>\<open>import_module\<close>, the
  path \<^verbatim>\<open>ExecutorFiles.PROCESS_SCRIPT\<close>, the files on disk, the encoding the platform
  prefers (with which \<^verbatim>\<open>open(path, "rt")\<close> decodes), the settings \<^verbatim>\<open>DATA\<close>, whether
  \<^verbatim>\<open>manager_commands.init()\<close> and \<^verbatim>\<open>deinit()\<close> return or raise, the futures in
  \<^verbatim>\<open>logging_future_list\<close> when they are gathered, and the tasks that
  \<^verbatim>\<open>asyncio.Task.all_tasks()\<close> returns at the end, each with what awaiting it gives.
\<close>

record environment =
  parse_args :: argparse_outcome
  package :: string
  import_module :: "string \<Rightarrow> string \<Rightarrow> exception + pymodule"
  PROCESS_SCRIPT :: string
  files :: "string \<rightharpoonup> char list"
  preferred_encoding :: encoding
  DATA :: "string \<rightharpoonup> pyvalue"
  manager_init :: "exception option"
  manager_deinit :: "exception option"
  logging_future_list :: "exception option list"
  all_tasks :: "exception option list"

text \<open>
  The steps of the bootstrap that are visible from outside, in a trace. A step is recorded
  when it starts, whether it then returns or raises.
\<close>

datatype event =
    Configure_logging
  | Manager_init
  | Parse_args
  | Import_module string string
  | Getattr_class string
  | Instantiate "pyvalue list"
  | Open_file string
  | Getattr_run
  | Getitem_DATA string
  | Read_file
  | Run_called pyvalue str
  | Run_returned
  | Run_raised exception
  | Close_file
  | Gather_logging
  | Manager_deinit
  | Gather_pending
  | Loop_close

text \<open>
  A computation gives the trace of the steps it took and either the exception that ended it
  or its value. The second computation of a sequence runs when the first has not raised; a
  step is recorded and raises or returns; the exit of a \<^verbatim>\<open>with\<close> block is recorded whether
  the body raised or not.
\<close>

type_synonym 'a io = "event list \<times> (raised + 'a)"

definition seq :: "'a io \<Rightarrow> ('a \<Rightarrow> 'b io) \<Rightarrow> 'b io" where
  "seq m f =
     (case m of
        (t, Inl e) \<Rightarrow> (t, Inl e)
      | (t, Inr x) \<Rightarrow> (case f x of (t', r) \<Rightarrow> (t @ t', r)))"

definition step :: "event \<Rightarrow> exception + 'a \<Rightarrow> 'a io" where
  "step ev r = ([ev], case r of Inl e \<Rightarrow> Inl (Exception e) | Inr x \<Rightarrow> Inr x)"

definition ensure :: "'a io \<Rightarrow> event \<Rightarrow> 'a io" where
  "ensure m ev = (case m of (t, r) \<Rightarrow> (t @ [ev], r))"

text \<open>
  Awaiting something that returns or raises; \<^verbatim>\<open>d[k]\<close> on a mapping, with the exception it
  raises for a missing key.
\<close>

definition awaited :: "exception option \<Rightarrow> exception + unit" where
  "awaited r = (case r of None \<Rightarrow> Inr () | Some e \<Rightarrow> Inl e)"

definition lookup :: "('k \<rightharpoonup> 'v) \<Rightarrow> 'k \<Rightarrow> exception \<Rightarrow> exception + 'v" where
  "lookup m k e = (case m k of None \<Rightarrow> Inl e | Some v \<Rightarrow> Inr v)"

subsection \<open>Reading the script file in text mode\<close>

text \<open>
  \<^verbatim>\<open>open(path, "rt")\<close> names no encoding, so the file is decoded with the preferred
  encoding of the platform, errors are strict, and newlines are universal: on reading,
  \<^verbatim>\<open>CR LF\<close> and \<^verbatim>\<open>CR\<close> become \<^verbatim>\<open>LF\<close>. The UTF-8 decoder rejects overlong forms, surrogates and
  code points beyond 10FFFF.
\<close>

definition continuation :: "nat \<Rightarrow> bool" where
  "continuation b = (128 \<le> b \<and> b < 192)"

fun decode_utf_8 :: "nat list \<Rightarrow> exception + str" where
  "decode_utf_8 [] = Inr []"
| "decode_utf_8 (b0 # bs) =
     (if b0 < 128 then map_sum id ((#) b0) (decode_utf_8 bs)
      else if 194 \<le> b0 \<and> b0 < 224 then
        (case bs of
           b1 # bs' \<Rightarrow>
             if continuation b1
             then map_sum id ((#) ((b0 - 192) * 64 + (b1 - 128))) (decode_utf_8 bs')
             else Inl UnicodeDecodeError
         | _ \<Rightarrow> Inl UnicodeDecodeError)
      else if 224 \<le> b0 \<and> b0 < 240 then
        (case bs of
           b1 # b2 # bs' \<Rightarrow>
             if continuation b1 \<and> continuation b2
                \<and> (b0 = 224 \<longrightarrow> 160 \<le> b1) \<and> (b0 = 237 \<longrightarrow> b1 < 160)
             then map_sum id ((#) ((b0 - 224) * 4096 + (b1 - 128) * 64 + (b2 - 128)))
                    (decode_utf_8 bs')
             else Inl UnicodeDecodeError
         | _ \<Rightarrow> Inl UnicodeDecodeError)
      else if 240 \<le> b0 \<and> b0 < 245 then
        (case bs of
           b1 # b2 # b3 # bs' \<Rightarrow>
             if continuation b1 \<and> continuation b2 \<and> continuation b3
                \<and> (b0 = 240 \<longrightarrow> 144 \<le> b1) \<and> (b0 = 244 \<longrightarrow> b1 < 144)
             then map_sum id
                    ((#) ((b0 - 240) * 262144 + (b1 - 128) * 4096 + (b2 - 128) * 64
                          + (b3 - 128)))
                    (decode_utf_8 bs')
             else Inl UnicodeDecodeError
         | _ \<Rightarrow> Inl UnicodeDecodeError)
      else Inl UnicodeDecodeError)"

definition decode :: "encoding \<Rightarrow> char list \<Rightarrow> exception + str" where
  "decode enc bytes =
     (case enc of
        UTF_8 \<Rightarrow> decode_utf_8 (map of_char bytes)
      | ISO_8859_1 \<Rightarrow> Inr (map of_char bytes)
      | US_ASCII \<Rightarrow>
          if list_all (\<lambda>b. of_char b < (128::nat)) bytes then Inr (map of_char bytes)
          else Inl UnicodeDecodeError)"

fun universal_newlines :: "str \<Rightarrow> str" where
  "universal_newlines [] = []"
| "universal_newlines [c] = (if c = 13 then [10] else [c])"
| "universal_newlines (c # d # cs) =
     (if c = 13 \<and> d = 10 then 10 # universal_newlines cs
      else if c = 13 then 10 # universal_newlines (d # cs)
      else c # universal_newlines (d # cs))"

definition script_file_read :: "environment \<Rightarrow> char list \<Rightarrow> exception + str" where
  "script_file_read env bytes =
     map_sum id universal_newlines (decode (preferred_encoding env) bytes)"

subsection \<open>The bootstrap\<close>

text \<open>
  \<^verbatim>\<open>asyncio.gather(*futures)\<close>, awaited: it returns when every future returns and raises
  the exception of the first future that raises (the futures are listed in the order in
  which they complete).
\<close>

definition gather :: "exception option list \<Rightarrow> exception + unit" where
  "gather futures =
     (case filter (\<lambda>f. f \<noteq> None) futures of
        [] \<Rightarrow> Inr ()
      | f # _ \<Rightarrow> awaited f)"

text \<open>
  \<^verbatim>\<open>await executor.run(DATA["id"], script_file.read())\<close>: the attribute \<^verbatim>\<open>run\<close>, then the
  arguments from left to right, then the call.
\<close>

definition executor_run :: "executor \<Rightarrow> environment \<Rightarrow> char list \<Rightarrow> unit io" where
  "executor_run executor env bytes =
     seq (step Getattr_run
            (case run_method executor of None \<Rightarrow> Inl AttributeError | Some run \<Rightarrow> Inr run)) (\<lambda>run.
     seq (step (Getitem_DATA ''id'') (lookup (DATA env) ''id'' KeyError)) (\<lambda>pid.
     seq (step Read_file (script_file_read env bytes)) (\<lambda>script.
     seq (step (Run_called pid script) (Inr ())) (\<lambda>_.
       case run pid script of
         None \<Rightarrow> step Run_returned (Inr ())
       | Some e \<Rightarrow> step (Run_raised e) (Inl e)))))"

text \<open>
  \<^verbatim>\<open>run_executor\<close>: parse the command line, import \<^verbatim>\<open>args.module\<close> followed by
  \<^verbatim>\<open>.run\<close> relative to the package, take its attribute \<^verbatim>\<open>FlowExecutor\<close>, call it with no
  argument, open the script file and run the executor inside the \<^verbatim>\<open>with\<close> block.
\<close>

definition run_executor :: "environment \<Rightarrow> unit io" where
  "run_executor env =
     (case parse_args env of
        Usage_error \<Rightarrow> ([Parse_args], Inl (SystemExit 2))
      | Help_requested \<Rightarrow> ([Parse_args], Inl (SystemExit 0))
      | Namespace module \<Rightarrow>
          seq (step Parse_args (Inr ())) (\<lambda>_.
          let module_name = module @ ''.run'';
              class_name = ''FlowExecutor''
          in
          seq (step (Import_module module_name (package env))
                 (import_module env module_name (package env))) (\<lambda>module.
          seq (step (Getattr_class class_name) (lookup module class_name AttributeError)) (\<lambda>klass.
          seq (step (Instantiate []) (instantiate klass [])) (\<lambda>executor.
          seq (step (Open_file (PROCESS_SCRIPT env))
                 (lookup (files env) (PROCESS_SCRIPT env) FileNotFoundError)) (\<lambda>script_file.
          ensure (executor_run executor env script_file) Close_file))))))"

text \<open>
  \<^verbatim>\<open>_sequential\<close>, and the \<^verbatim>\<open>__main__\<close> block: each \<^verbatim>\<open>loop.run_until_complete\<close>
  raises what its awaitable raises, and nothing catches it.
\<close>

definition sequential :: "environment \<Rightarrow> unit io" where
  "sequential env =
     seq (step Manager_init (awaited (manager_init env))) (\<lambda>_. run_executor env)"

definition main :: "environment \<Rightarrow> unit io" where
  "main env =
     seq (step Configure_logging (Inr ())) (\<lambda>_.
     seq (sequential env) (\<lambda>_.
     seq (step Gather_logging (gather (logging_future_list env))) (\<lambda>_.
     seq (step Manager_deinit (awaited (manager_deinit env))) (\<lambda>_.
     seq (step Gather_pending (gather (all_tasks env))) (\<lambda>_.
     step Loop_close (Inr ()))))))"

text \<open>
  The exit status of the interpreter: 0 when the script ends, the code of a
  \<^verbatim>\<open>SystemExit\<close>, and 1 for an exception nobody caught.
\<close>

fun exit_status :: "raised + unit \<Rightarrow> int" where
  "exit_status (Inr _) = 0"
| "exit_status (Inl (SystemExit n)) = n"
| "exit_status (Inl (Exception _)) = 1"

subsection \<open>Properties of traces\<close>

text \<open>
  A module argument is resolvable when the module can be imported and has the attribute
  \<^verbatim>\<open>FlowExecutor\<close>.
\<close>

definition resolvable :: "environment \<Rightarrow> string \<Rightarrow> bool" where
  "resolvable env m =
     (case import_module env (m @ ''.run'') (package env) of
        Inl e \<Rightarrow> False
      | Inr md \<Rightarrow> md ''FlowExecutor'' \<noteq> None)"

text \<open>
  An event happens before another in a trace when some occurrence of the first is
  followed, later, by an occurrence of the second. The events of the run routine are its
  call and its two ends.
\<close>

fun happens_before :: "'a \<Rightarrow> 'a \<Rightarrow> 'a list \<Rightarrow> bool" where
  "happens_before a b [] = False"
| "happens_before a b (x # xs) = ((x = a \<and> b \<in> set xs) \<or> happens_before a b xs)"

fun is_run_event :: "event \<Rightarrow> bool" where
  "is_run_event (Run_called _ _) = True"
| "is_run_event Run_returned = True"
| "is_run_event (Run_raised _) = True"
| "is_run_event _ = False"

text \<open>
  The position of each step in the order of the script, and the traces whose steps are in
  strictly increasing order between two positions.
\<close>

fun phase :: "event \<Rightarrow> nat" where
  "phase Configure_logging = 0"
| "phase Manager_init = 1"
| "phase Parse_args = 2"
| "phase (Import_module _ _) = 3"
| "phase (Getattr_class _) = 4"
| "phase (Instantiate _) = 5"
| "phase (Open_file _) = 6"
| "phase Getattr_run = 7"
| "phase (Getitem_DATA _) = 8"
| "phase Read_file = 9"
| "phase (Run_called _ _) = 10"
| "phase Run_returned = 11"
| "phase (Run_raised _) = 11"
| "phase Close_file = 12"
| "phase Gather_logging = 13"
| "phase Manager_deinit = 14"
| "phase Gather_pending = 15"
| "phase Loop_close = 16"

definition in_order :: "nat \<Rightarrow> nat \<Rightarrow> event list \<Rightarrow> bool" where
  "in_order lo hi tr =
     (sorted_wrt (<) (map phase tr) \<and> (\<forall>ev \<in> set tr. lo \<le> phase ev \<and> phase ev \<le> hi))"

subsection \<open>Example environments\<close>

text \<open>
  An invocation \<^verbatim>\<open>python -m executors .docker\<close> whose executor returns, and variants of
  it: an executor whose \<^verbatim>\<open>run\<close> raises, a module name that cannot be imported, a command
  line without the argument, and a platform that prefers Latin-1.
\<close>

definition docker_executor :: executor where
  "docker_executor = Executor (Some (\<lambda>pid script. None))"

definition failing_executor :: executor where
  "failing_executor = Executor (Some (\<lambda>pid script. Some (RuntimeError ''process failed'')))"

definition import_docker :: "executor \<Rightarrow> string \<Rightarrow> string \<Rightarrow> exception + pymodule" where
  "import_docker ex name pkg =
     (if name = ''.docker.run'' \<and> pkg = ''executors''
      then Inr [''FlowExecutor'' \<mapsto>
                  PyClass (\<lambda>args. if args = [] then Inr ex else Inl TypeError)]
      else Inl ModuleNotFoundError)"

definition docker_env :: environment where
  "docker_env =
     \<lparr>parse_args = Namespace ''.docker'',
      package = ''executors'',
      import_module = import_docker docker_executor,
      PROCESS_SCRIPT = ''process_script.sh'',
      files = [''process_script.sh'' \<mapsto>
                 [CHR ''l'', CHR ''s'', CHR 0x0D, CHR 0x0A, CHR 0xC3, CHR 0xA9]],
      preferred_encoding = UTF_8,
      DATA = [''id'' \<mapsto> PyInt 42],
      manager_init = None,
      manager_deinit = None,
      logging_future_list = [None, None],
      all_tasks = []\<rparr>"

definition failing_env :: environment where
  "failing_env = docker_env\<lparr>import_module := import_docker failing_executor\<rparr>"

definition nosuch_env :: environment where
  "nosuch_env = docker_env\<lparr>parse_args := Namespace ''.nosuch''\<rparr>"

definition usage_env :: environment where
  "usage_env = docker_env\<lparr>parse_args := Usage_error\<rparr>"

definition latin1_env :: environment where
  "latin1_env =
     docker_env
       \<lparr>files := [''process_script.sh'' \<mapsto> [CHR ''l'', CHR ''s'', CHR 0x0A, CHR 0xC3, CHR 0xA9]],
        preferred_encoding := ISO_8859_1\<rparr>"

text \<open>
  Two more variants: \<^verbatim>\<open>manager_commands.init()\<close> raises, with the module argument given
  and without it.
\<close>

definition init_fails_env :: environment where
  "init_fails_env = docker_env\<lparr>manager_init := Some (RuntimeError ''manager unreachable'')\<rparr>"

definition usage_init_fails_env :: environment where
  "usage_init_fails_env =
     usage_env\<lparr>manager_init := Some (RuntimeError ''manager unreachable'')\<rparr>"

section \<open>The relation serializer (resolwe/flow/serializers/relation.py)\<close>

subsection \<open>The database\<close>

text \<open>
  A Python dictionary with string keys, in insertion order. The rows of the two tables the
  serializer writes: a relation with its primary key and its attributes, and a partition
  with its key, the key of its relation, and the three values the serializer stores.
\<close>

type_synonym pydict = "(string \<times> pyvalue) list"

record relation =
  relation_pk :: nat
  relation_attrs :: pydict

record relation_partition =
  partition_pk :: nat
  partition_relation :: nat
  partition_entity :: pyvalue
  partition_label :: pyvalue
  partition_position :: pyvalue

text \<open>
  The state of the database is the contents of its tables; the collections and entities are
  there for the rows that refer to them.
\<close>

record db =
  Collection_objects :: "nat list"
  Entity_objects :: "nat list"
  Relation_objects :: "relation list"
  RelationPartition_objects :: "relation_partition list"

text \<open>
  The statements the serializer sends, and the verdict of the database on a statement in a
  state: it executes it, or rejects it with an exception (a violated constraint, a lost
  connection). The verdict is a parameter: the theorems hold for every database.
\<close>

datatype statement =
    Insert_relation relation
  | Update_relation relation
  | Insert_partition relation_partition
  | Delete_partitions nat

type_synonym integrity = "db \<Rightarrow> statement \<Rightarrow> exception option"

text \<open>
  A computation on the database returns a value or raises, and leaves a state. A block
  under \<^verbatim>\<open>transaction.atomic()\<close> that raises leaves the state it started from and raises
  the same exception; a block that returns keeps its state.
\<close>

type_synonym 'a orm = "db \<Rightarrow> (exception + 'a) \<times> db"

definition orm_bind :: "'a orm \<Rightarrow> ('a \<Rightarrow> 'b orm) \<Rightarrow> 'b orm" where
  "orm_bind m f db =
     (case m db of
        (Inl e, db') \<Rightarrow> (Inl e, db')
      | (Inr x, db') \<Rightarrow> f x db')"

definition orm_return :: "'a \<Rightarrow> 'a orm" where
  "orm_return x db = (Inr x, db)"

definition orm_raise :: "exception \<Rightarrow> 'a orm" where
  "orm_raise e db = (Inl e, db)"

definition atomic :: "'a orm \<Rightarrow> 'a orm" where
  "atomic body db =
     (case body db of
        (Inl e, db') \<Rightarrow> (Inl e, db)
      | (Inr x, db') \<Rightarrow> (Inr x, db'))"

text \<open>
  The database gives a new row a primary key that no row of the table has. A statement is
  executed when the database accepts it.
\<close>

definition next_pk :: "nat list \<Rightarrow> nat" where
  "next_pk pks = Suc (fold max pks 0)"

definition execute :: "integrity \<Rightarrow> statement \<Rightarrow> (db \<Rightarrow> db) \<Rightarrow> unit orm" where
  "execute integ st change db =
     (case integ db st of
        Some e \<Rightarrow> (Inl e, db)
      | None \<Rightarrow> (Inr (), change db))"

text \<open>
  \<^verbatim>\<open>Relation.objects.create(**validated_data)\<close> and
  \<^verbatim>\<open>RelationPartition.objects.create(relation=..., entity=..., label=..., position=...)\<close>.
\<close>

definition Relation_objects_create :: "integrity \<Rightarrow> pydict \<Rightarrow> relation orm" where
  "Relation_objects_create integ attrs db =
     (let instance = \<lparr>relation_pk = next_pk (map relation_pk (Relation_objects db)),
                      relation_attrs = attrs\<rparr>
      in orm_bind
           (execute integ (Insert_relation instance)
              (\<lambda>db. db\<lparr>Relation_objects := Relation_objects db @ [instance]\<rparr>))
           (\<lambda>_. orm_return instance) db)"

definition RelationPartition_objects_create ::
  "integrity \<Rightarrow> relation \<Rightarrow> pyvalue \<Rightarrow> pyvalue \<Rightarrow> pyvalue \<Rightarrow> relation_partition orm" where
  "RelationPartition_objects_create integ relation entity label position db =
     (let row = \<lparr>partition_pk = next_pk (map partition_pk (RelationPartition_objects db)),
                 partition_relation = relation_pk relation,
                 partition_entity = entity,
                 partition_label = label,
                 partition_position = position\<rparr>
      in orm_bind
           (execute integ (Insert_partition row)
              (\<lambda>db. db\<lparr>RelationPartition_objects := RelationPartition_objects db @ [row]\<rparr>))
           (\<lambda>_. orm_return row) db)"

text \<open>
  \<^verbatim>\<open>d[k]\<close>, which raises \<^verbatim>\<open>KeyError\<close> for a missing key, and \<^verbatim>\<open>d.get(k, default)\<close>.
\<close>

definition getitem :: "pydict \<Rightarrow> string \<Rightarrow> pyvalue orm" where
  "getitem d k = (case map_of d k of None \<Rightarrow> orm_raise KeyError | Some v \<Rightarrow> orm_return v)"

definition dict_get :: "pydict \<Rightarrow> string \<Rightarrow> pyvalue \<Rightarrow> pyvalue" where
  "dict_get d k dflt = (case map_of d k of None \<Rightarrow> dflt | Some v \<Rightarrow> v)"

subsection \<open>The serializer\<close>

text \<open>
  \<^verbatim>\<open>_create_partitions\<close>: one row for each partition given, in order; the loop stops at the
  first exception, with the rows before it written.
\<close>

fun create_partitions :: "integrity \<Rightarrow> relation \<Rightarrow> pydict list \<Rightarrow> unit orm" where
  "create_partitions integ instance [] = orm_return ()"
| "create_partitions integ instance (part # partitions) =
     orm_bind (getitem part ''entity'') (\<lambda>entity.
     orm_bind (RelationPartition_objects_create integ instance entity
                 (dict_get part ''label'' PyNone) (dict_get part ''position'' PyNone)) (\<lambda>_.
     create_partitions integ instance partitions))"

text \<open>
  The validated data: the attributes of the relation, and the partitions under the key
  \<^verbatim>\<open>relationpartition_set\<close>, which \<^verbatim>\<open>pop\<close> takes out with the default \<^verbatim>\<open>{}\<close> when the key
  is not there.
\<close>

record validated_data =
  attrs :: pydict
  relationpartition_set :: "pydict list option"

definition pop_relationpartition_set :: "validated_data \<Rightarrow> pydict list" where
  "pop_relationpartition_set vd =
     (case relationpartition_set vd of None \<Rightarrow> [] | Some partitions \<Rightarrow> partitions)"

definition RelationSerializer_create :: "integrity \<Rightarrow> validated_data \<Rightarrow> relation orm" where
  "RelationSerializer_create integ vd =
     (let partitions = pop_relationpartition_set vd
      in atomic
           (orm_bind (Relation_objects_create integ (attrs vd)) (\<lambda>instance.
            orm_bind (create_partitions integ instance partitions) (\<lambda>_.
            orm_return instance))))"

text \<open>
  \<^verbatim>\<open>super().update(instance, validated_data)\<close> is the update of the model serializer of
  the framework: it sets each attribute given on the instance and saves the instance, which
  writes the row with its key, or inserts it when no row has that key.
\<close>

fun setattr :: "pydict \<Rightarrow> string \<Rightarrow> pyvalue \<Rightarrow> pydict" where
  "setattr [] k v = [(k, v)]"
| "setattr ((k', v') # d) k v = (if k' = k then (k, v) # d else (k', v') # setattr d k v)"

definition saved :: "relation \<Rightarrow> relation list \<Rightarrow> relation list" where
  "saved instance rows =
     (if relation_pk instance \<in> set (map relation_pk rows)
      then map (\<lambda>r. if relation_pk r = relation_pk instance then instance else r) rows
      else rows @ [instance])"

definition instance_save :: "integrity \<Rightarrow> relation \<Rightarrow> unit orm" where
  "instance_save integ instance =
     execute integ (Update_relation instance)
       (\<lambda>db. db\<lparr>Relation_objects :=
          (if relation_pk instance \<in> set (map relation_pk (Relation_objects db))
           then map (\<lambda>r. if relation_pk r = relation_pk instance then instance else r)
                  (Relation_objects db)
           else Relation_objects db @ [instance])\<rparr>)"

definition super_update :: "integrity \<Rightarrow> relation \<Rightarrow> pydict \<Rightarrow> relation orm" where
  "super_update integ instance validated =
     (let instance' =
            instance\<lparr>relation_attrs :=
              fold (\<lambda>(attr, v) d. setattr d attr v) validated (relation_attrs instance)\<rparr>
      in orm_bind (instance_save integ instance') (\<lambda>_. orm_return instance'))"

text \<open>
  \<^verbatim>\<open>instance.relationpartition_set.all().delete()\<close>
\<close>

definition relationpartition_set_all_delete :: "integrity \<Rightarrow> relation \<Rightarrow> unit orm" where
  "relationpartition_set_all_delete integ instance =
     execute integ (Delete_partitions (relation_pk instance))
       (\<lambda>db. db\<lparr>RelationPartition_objects :=
          filter (\<lambda>p. partition_relation p \<noteq> relation_pk instance)
            (RelationPartition_objects db)\<rparr>)"

definition RelationSerializer_update :: "integrity \<Rightarrow> relation \<Rightarrow> validated_data \<Rightarrow> relation orm" where
  "RelationSerializer_update integ instance vd =
     (let partitions = pop_relationpartition_set vd
      in atomic
           (orm_bind (super_update integ instance (attrs vd)) (\<lambda>instance.
            orm_bind (relationpartition_set_all_delete integ instance) (\<lambda>_.
            orm_bind (create_partitions integ instance partitions) (\<lambda>_.
            orm_return instance)))))"

subsection \<open>What is stored\<close>

text \<open>
  What a partition row stores and what a given partition asks for; the partitions of a
  relation in a state, and all the others.
\<close>

definition partition_content :: "relation_partition \<Rightarrow> pyvalue \<times> pyvalue \<times> pyvalue" where
  "partition_content p = (partition_entity p, partition_label p, partition_position p)"

definition given_content :: "pydict \<Rightarrow> pyvalue \<times> pyvalue \<times> pyvalue" where
  "given_content d = (the (map_of d ''entity''), dict_get d ''label'' PyNone, dict_get d ''position'' PyNone)"

definition partitions_of :: "db \<Rightarrow> nat \<Rightarrow> relation_partition list" where
  "partitions_of db pk = filter (\<lambda>p. partition_relation p = pk) (RelationPartition_objects db)"

definition partitions_not_of :: "db \<Rightarrow> nat \<Rightarrow> relation_partition list" where
  "partitions_not_of db pk = filter (\<lambda>p. partition_relation p \<noteq> pk) (RelationPartition_objects db)"

subsection \<open>An example database\<close>

text \<open>
  A database that rejects a partition whose entity is not in the table of entities, with one
  relation that has two partitions; validated data with one partition, and validated data
  whose second partition names an entity that is not there.
\<close>

definition fk_integrity :: integrity where
  "fk_integrity db st =
     (case st of
        Insert_partition row \<Rightarrow>
          (case partition_entity row of
             PyInt n \<Rightarrow>
               if 0 \<le> n \<and> nat n \<in> set (Entity_objects db) then None
               else Some IntegrityError
           | _ \<Rightarrow> Some IntegrityError)
      | _ \<Rightarrow> None)"

definition relation_1 :: relation where
  "relation_1 =
     \<lparr>relation_pk = 1,
      relation_attrs = [(''collection'', PyInt 1), (''category'', PyStr ''replicates'')]\<rparr>"

definition db_example :: db where
  "db_example =
     \<lparr>Collection_objects = [1],
      Entity_objects = [1, 2, 3],
      Relation_objects = [relation_1],
      RelationPartition_objects =
        [\<lparr>partition_pk = 1, partition_relation = 1, partition_entity = PyInt 1,
          partition_label = PyStr ''control'', partition_position = PyNone\<rparr>,
         \<lparr>partition_pk = 2, partition_relation = 1, partition_entity = PyInt 2,
          partition_label = PyStr ''case'', partition_position = PyNone\<rparr>]\<rparr>"

definition vd_good :: validated_data where
  "vd_good =
     \<lparr>attrs = [(''category'', PyStr ''series'')],
      relationpartition_set =
        Some [[(''entity'', PyInt 3), (''position'', PyInt 5)]]\<rparr>"

definition vd_bad :: validated_data where
  "vd_bad =
     \<lparr>attrs = [(''category'', PyStr ''series'')],
      relationpartition_set =
        Some [[(''entity'', PyInt 3)], [(''entity'', PyInt 7)]]\<rparr>"

section \<open>Theorems\<close>

subsection \<open>Query parameter validation\<close>

lemma validate_query_params_errors:
  "form_errors (validate_query_params fs) =
     (if unallowed fs = {} then form_errors fs
      else form_errors fs @ [ParseError (unallowed fs) (allowed_params fs)])"
  by (simp add: validate_query_params_def add_error_def)

lemma unallowed_empty_iff:
  "unallowed fs = {} \<longleftrightarrow>
     set (map fst (query_params fs))
       \<subseteq> set (get_filters fs) \<union> set (get_always_allowed_arguments (cls fs))"
  by (simp add: unallowed_def allowed_params_def)

text \<open>
  C10. Validating a request through \<^verbatim>\<open>CheckQueryParamsMixin\<close> adds an error to the form
  if and only if the names of the query parameters of the request are not a subset of the
  declared filter names together with the always allowed arguments of the class of the
  filter set: \<^verbatim>\<open>fields\<close>, \<^verbatim>\<open>format\<close>, \<^verbatim>\<open>limit\<close>, \<^verbatim>\<open>offset\<close>, \<^verbatim>\<open>ordering\<close>, and for
  \<^verbatim>\<open>RelationFilter\<close> also \<^verbatim>\<open>entity\<close>, \<^verbatim>\<open>label\<close>, \<^verbatim>\<open>position\<close>. When an error is added it
  is one \<^verbatim>\<open>ParseError\<close>, appended to the errors the form already has; otherwise the form
  is left as it is.
\<close>

theorem query_param_error_iff_not_subset:
  "(form_errors (validate_query_params fs) \<noteq> form_errors fs
      \<longleftrightarrow> \<not> set (map fst (query_params fs))
              \<subseteq> set (get_filters fs) \<union> set (get_always_allowed_arguments (cls fs)))
   \<and> (\<exists>u a. form_errors (validate_query_params fs) = form_errors fs @ [ParseError u a]
         \<or> validate_query_params fs = fs)
   \<and> fst (is_valid fs) = validate_query_params fs
   \<and> set (get_always_allowed_arguments (cls fs))
       = {''fields'', ''format'', ''limit'', ''offset'', ''ordering''}
         \<union> (if cls fs = RelationFilter then {''entity'', ''label'', ''position''} else {})"
proof (intro conjI)
  show "form_errors (validate_query_params fs) \<noteq> form_errors fs
      \<longleftrightarrow> \<not> set (map fst (query_params fs))
              \<subseteq> set (get_filters fs) \<union> set (get_always_allowed_arguments (cls fs))"
    unfolding unallowed_empty_iff [symmetric]
    by (simp add: validate_query_params_errors)
  show "\<exists>u a. form_errors (validate_query_params fs) = form_errors fs @ [ParseError u a]
         \<or> validate_query_params fs = fs"
    by (cases "unallowed fs = {}") (auto simp: validate_query_params_def add_error_def)
  show "fst (is_valid fs) = validate_query_params fs"
    by (simp add: is_valid_def Let_def)
  show "set (get_always_allowed_arguments (cls fs))
       = {''fields'', ''format'', ''limit'', ''offset'', ''ordering''}
         \<union> (if cls fs = RelationFilter then {''entity'', ''label'', ''position''} else {})"
    by (cases "cls fs")
      (auto simp: CheckQueryParamsMixin_get_always_allowed_arguments_def)
qed

theorem query_param_error_iff_not_subset_witness:
  "form_errors (validate_query_params relation_request) = form_errors relation_request
   \<and> form_errors (validate_query_params data_request) \<noteq> form_errors data_request"
proof -
  have a: "set (map fst (query_params relation_request))
      \<subseteq> set (get_filters relation_request)
          \<union> set (get_always_allowed_arguments (cls relation_request))"
    by (simp add: relation_request_def
        CheckQueryParamsMixin_get_always_allowed_arguments_def)
  have b: "\<not> set (map fst (query_params data_request))
      \<subseteq> set (get_filters data_request)
          \<union> set (get_always_allowed_arguments (cls data_request))"
    by (simp add: data_request_def relation_request_def
        CheckQueryParamsMixin_get_always_allowed_arguments_def)
  from a b query_param_error_iff_not_subset [of relation_request]
    query_param_error_iff_not_subset [of data_request]
  show ?thesis by blast
qed

subsection \<open>Moving the purged flag\<close>

lemma data_filter_purged_exists_iff:
  "data_filter_purged_exists ds l = has_purged_data ds (location_id l)"
  by (auto simp: data_filter_purged_exists_def has_purged_data_def filter_empty_conv)

lemma Data_objects_mark_step [simp]: "Data_objects (mark_step l db) = Data_objects db"
  by (simp add: mark_step_def)

lemma Data_objects_fold_mark_step [simp]:
  "Data_objects (fold mark_step ls db) = Data_objects db"
  by (induction ls arbitrary: db) simp_all

text \<open>
  The loop over any rows whose keys are in the table: the keys of the table stay as they
  are, and a row is marked when its key is among the rows visited and it has purged data.
\<close>

lemma fold_mark_step_locations:
  "set (map location_id ls) \<subseteq> set (map location_id (DataLocation_objects db)) \<Longrightarrow>
   DataLocation_objects (fold mark_step ls db) =
     map (\<lambda>r. if location_id r \<in> set (map location_id ls)
                  \<and> has_purged_data (Data_objects db) (location_id r)
               then \<lparr>location_id = location_id r, location_purged = True\<rparr> else r)
       (DataLocation_objects db)"
proof (induction ls arbitrary: db)
  case Nil
  then show ?case by (simp add: map_idI)
next
  case (Cons l ls)
  have ids: "map location_id (DataLocation_objects (mark_step l db))
      = map location_id (DataLocation_objects db)"
    using Cons.prems by (auto simp: mark_step_def save_def)
  have "set (map location_id ls)
      \<subseteq> set (map location_id (DataLocation_objects (mark_step l db)))"
    using Cons.prems unfolding ids by simp
  from Cons.IH [OF this] show ?case
    using Cons.prems
    by (auto simp: mark_step_def save_def data_filter_purged_exists_iff)
qed

lemma mark_purged_locations_rows:
  "DataLocation_objects (mark_purged_locations db) =
     map (\<lambda>r. if has_purged_data (Data_objects db) (location_id r)
               then \<lparr>location_id = location_id r, location_purged = True\<rparr> else r)
       (DataLocation_objects db)"
  unfolding mark_purged_locations_def
  by (subst fold_mark_step_locations) auto

text \<open>
  C8. After the migration step \<^verbatim>\<open>mark_purged_locations\<close> has run on the table that
  \<^verbatim>\<open>AddField\<close> filled with the default \<^verbatim>\<open>False\<close>, the locations are the ones there were
  before, in the same order, and the flag \<^verbatim>\<open>purged\<close> of each of them is true exactly
  when at least one \<^verbatim>\<open>Data\<close> row associated with it has \<^verbatim>\<open>purged\<close> set: a location with
  purged data is marked, a location without keeps the default. The \<^verbatim>\<open>Data\<close> rows are not
  changed by the step, and dropping their column afterwards leaves the flags of the
  locations as the step set them.
\<close>

theorem mark_purged_locations_marks_exactly:
  "map location_id (DataLocation_objects (mark_purged_locations (add_field_purged db)))
     = map location_id_0032 (DataLocation_objects db)
   \<and> (\<forall>l \<in> set (DataLocation_objects (mark_purged_locations (add_field_purged db))).
        location_purged l = has_purged_data (Data_objects db) (location_id l))
   \<and> Data_objects (mark_purged_locations (add_field_purged db)) = Data_objects db
   \<and> DataLocation_objects (Migration_operations db)
       = DataLocation_objects (mark_purged_locations (add_field_purged db))"
proof (intro conjI)
  show "map location_id (DataLocation_objects (mark_purged_locations (add_field_purged db)))
     = map location_id_0032 (DataLocation_objects db)"
    by (simp add: mark_purged_locations_rows add_field_purged_def comp_def)
  show "\<forall>l \<in> set (DataLocation_objects (mark_purged_locations (add_field_purged db))).
        location_purged l = has_purged_data (Data_objects db) (location_id l)"
    by (auto simp: mark_purged_locations_rows add_field_purged_def)
  show "Data_objects (mark_purged_locations (add_field_purged db)) = Data_objects db"
    by (simp add: mark_purged_locations_def add_field_purged_def)
  show "DataLocation_objects (Migration_operations db)
       = DataLocation_objects (mark_purged_locations (add_field_purged db))"
    by (simp add: Migration_operations_def remove_field_purged_def)
qed

theorem mark_purged_locations_marks_exactly_witness:
  "DataLocation_objects (mark_purged_locations (add_field_purged db_0032_example))
     = [\<lparr>location_id = 1, location_purged = False\<rparr>,
        \<lparr>location_id = 2, location_purged = True\<rparr>,
        \<lparr>location_id = 3, location_purged = False\<rparr>]
   \<and> \<not> has_purged_data (Data_objects db_0032_example) 1
   \<and> has_purged_data (Data_objects db_0032_example) 2
   \<and> \<not> has_purged_data (Data_objects db_0032_example) 3"
proof -
  have "DataLocation_objects (mark_purged_locations (add_field_purged db_0032_example))
     = [\<lparr>location_id = 1, location_purged = False\<rparr>,
        \<lparr>location_id = 2, location_purged = True\<rparr>,
        \<lparr>location_id = 3, location_purged = False\<rparr>]"
    by (simp add: mark_purged_locations_def add_field_purged_def db_0032_example_def
        mark_step_def save_def data_filter_purged_exists_def)
  with mark_purged_locations_marks_exactly [of db_0032_example]
  show ?thesis by simp
qed

subsection \<open>The executor bootstrap\<close>

lemma seq_Inl [simp]: "seq (t, Inl e) f = (t, Inl e)"
  by (simp add: seq_def)

lemma seq_Inr [simp]: "seq (t, Inr x) f = (t @ fst (f x), snd (f x))"
  by (simp add: seq_def split: prod.splits)

lemma step_Inr [simp]: "step ev (Inr x) = ([ev], Inr x)"
  by (simp add: step_def)

lemma step_Inl [simp]: "step ev (Inl e) = ([ev], Inl (Exception e))"
  by (simp add: step_def)

lemma ensure_pair [simp]: "ensure (t, r) ev = (t @ [ev], r)"
  by (simp add: ensure_def)

lemma seq_step:
  "seq (step ev r) f =
     (case r of Inl e \<Rightarrow> ([ev], Inl (Exception e)) | Inr x \<Rightarrow> (ev # fst (f x), snd (f x)))"
  by (cases r) simp_all

lemma executor_run_success:
  assumes "snd (executor_run ex env bytes) = Inr u"
  shows "\<exists>run pid script.
           run_method ex = Some run \<and> DATA env ''id'' = Some pid
           \<and> script_file_read env bytes = Inr script \<and> run pid script = None
           \<and> fst (executor_run ex env bytes)
               = [Getattr_run, Getitem_DATA ''id'', Read_file, Run_called pid script,
                  Run_returned]"
  using assms
  by (auto simp: executor_run_def lookup_def seq_step split: option.splits sum.splits)

lemma run_executor_success:
  assumes "snd (run_executor env) = Inr u"
  shows "\<exists>m md c ex bytes run pid script.
           parse_args env = Namespace m
           \<and> import_module env (m @ ''.run'') (package env) = Inr md
           \<and> md ''FlowExecutor'' = Some c \<and> instantiate c [] = Inr ex
           \<and> files env (PROCESS_SCRIPT env) = Some bytes
           \<and> run_method ex = Some run \<and> DATA env ''id'' = Some pid
           \<and> script_file_read env bytes = Inr script \<and> run pid script = None
           \<and> fst (run_executor env)
               = [Parse_args, Import_module (m @ ''.run'') (package env),
                  Getattr_class ''FlowExecutor'', Instantiate [],
                  Open_file (PROCESS_SCRIPT env),
                  Getattr_run, Getitem_DATA ''id'', Read_file, Run_called pid script,
                  Run_returned, Close_file]"
proof -
  from assms obtain m where m: "parse_args env = Namespace m"
    by (cases "parse_args env") (simp_all add: run_executor_def)
  from assms m obtain md where md: "import_module env (m @ ''.run'') (package env) = Inr md"
    by (cases "import_module env (m @ ''.run'') (package env)")
      (simp_all add: run_executor_def seq_step Let_def)
  from assms m md obtain c where c: "md ''FlowExecutor'' = Some c"
    by (cases "md ''FlowExecutor''")
      (simp_all add: run_executor_def seq_step Let_def lookup_def)
  from assms m md c obtain ex where ex: "instantiate c [] = Inr ex"
    by (cases "instantiate c []")
      (simp_all add: run_executor_def seq_step Let_def lookup_def)
  from assms m md c ex obtain bytes where bytes: "files env (PROCESS_SCRIPT env) = Some bytes"
    by (cases "files env (PROCESS_SCRIPT env)")
      (simp_all add: run_executor_def seq_step Let_def lookup_def)
  have eq: "run_executor env =
      ([Parse_args, Import_module (m @ ''.run'') (package env),
        Getattr_class ''FlowExecutor'', Instantiate [], Open_file (PROCESS_SCRIPT env)]
         @ fst (executor_run ex env bytes) @ [Close_file],
       snd (executor_run ex env bytes))"
    using m md c ex bytes
    by (simp add: run_executor_def seq_step Let_def lookup_def ensure_def split: prod.splits)
  with assms have "snd (executor_run ex env bytes) = Inr u" by simp
  from executor_run_success [OF this] m md c ex bytes eq show ?thesis by auto
qed

lemma in_order_Nil [simp]: "in_order lo hi []"
  by (simp add: in_order_def)

lemma in_order_Cons [simp]:
  "in_order lo hi (ev # tr) \<longleftrightarrow>
     lo \<le> phase ev \<and> phase ev \<le> hi \<and> in_order (phase ev + 1) hi tr"
  by (fastforce simp: in_order_def)

lemma in_order_mono: "in_order lo hi tr \<Longrightarrow> lo' \<le> lo \<Longrightarrow> hi \<le> hi' \<Longrightarrow> in_order lo' hi' tr"
  by (auto simp: in_order_def)

lemma in_order_append:
  "in_order lo mid tr \<Longrightarrow> in_order lo' hi tr' \<Longrightarrow> mid < lo' \<Longrightarrow> lo \<le> lo' \<Longrightarrow> mid \<le> hi
     \<Longrightarrow> in_order lo hi (tr @ tr')"
  by (fastforce simp: in_order_def sorted_wrt_append)

lemma fst_ensure [simp]: "fst (ensure m ev) = fst m @ [ev]"
  by (simp add: ensure_def split: prod.splits)

lemma snd_ensure [simp]: "snd (ensure m ev) = snd m"
  by (simp add: ensure_def split: prod.splits)

lemma executor_run_in_order: "in_order 7 11 (fst (executor_run ex env bytes))"
  by (simp add: executor_run_def seq_step split: option.splits sum.splits)

lemma run_executor_in_order: "in_order 2 12 (fst (run_executor env))"
proof -
  have "in_order 7 12 (fst (ensure (executor_run ex env bytes) Close_file))" for ex bytes
    using in_order_append [OF executor_run_in_order, of 12 12 "[Close_file]" ex env bytes]
    by simp
  then have "lo \<le> 7 \<Longrightarrow> in_order lo 12 (fst (ensure (executor_run ex env bytes) Close_file))"
    for ex bytes lo
    by (rule in_order_mono) simp_all
  then show ?thesis
    by (simp add: run_executor_def seq_step Let_def lookup_def
        split: argparse_outcome.splits option.splits sum.splits)
qed

lemma sequential_in_order: "in_order 1 12 (fst (sequential env))"
  using run_executor_in_order [of env]
  by (simp add: sequential_def seq_step awaited_def numeral_2_eq_2 split: option.splits)

lemma main_unfold:
  "main env =
     (case snd (sequential env) of
        Inl e \<Rightarrow> (Configure_logging # fst (sequential env), Inl e)
      | Inr _ \<Rightarrow>
          (Configure_logging # fst (sequential env)
             @ fst (seq (step Gather_logging (gather (logging_future_list env))) (\<lambda>_.
                    seq (step Manager_deinit (awaited (manager_deinit env))) (\<lambda>_.
                    seq (step Gather_pending (gather (all_tasks env))) (\<lambda>_.
                    step Loop_close (Inr ()))))),
           snd (seq (step Gather_logging (gather (logging_future_list env))) (\<lambda>_.
                    seq (step Manager_deinit (awaited (manager_deinit env))) (\<lambda>_.
                    seq (step Gather_pending (gather (all_tasks env))) (\<lambda>_.
                    step Loop_close (Inr ())))))))"
  by (cases "sequential env") (simp add: main_def split: sum.splits)

lemma shutdown_in_order:
  "in_order 13 16 (fst (seq (step Gather_logging (gather (logging_future_list env))) (\<lambda>_.
     seq (step Manager_deinit (awaited (manager_deinit env))) (\<lambda>_.
     seq (step Gather_pending (gather (all_tasks env))) (\<lambda>_.
     step Loop_close (Inr ()))))))"
  by (simp add: seq_step split: sum.splits)

lemma main_in_order: "in_order 0 16 (fst (main env))"
proof (cases "snd (sequential env)")
  case (Inl e)
  then show ?thesis
    using in_order_mono [OF sequential_in_order, of 0 16 env]
      in_order_mono [OF sequential_in_order, of 1 16 env]
    by (simp add: main_unfold)
next
  case (Inr u)
  have "in_order 1 16 (fst (sequential env)
      @ fst (seq (step Gather_logging (gather (logging_future_list env))) (\<lambda>_.
             seq (step Manager_deinit (awaited (manager_deinit env))) (\<lambda>_.
             seq (step Gather_pending (gather (all_tasks env))) (\<lambda>_.
             step Loop_close (Inr ()))))))"
    by (rule in_order_append [OF sequential_in_order shutdown_in_order]) simp_all
  from this in_order_mono [OF this, of 0 16]
  show ?thesis using Inr
    by (simp add: main_unfold)
qed

lemmas bootstrap_defs =
  main_def sequential_def run_executor_def executor_run_def seq_step step_def ensure_def
  awaited_def lookup_def gather_def script_file_read_def decode_def continuation_def Let_def

lemma main_docker_env:
  "main docker_env =
     ([Configure_logging, Manager_init, Parse_args,
       Import_module ''.docker.run'' ''executors'', Getattr_class ''FlowExecutor'',
       Instantiate [], Open_file ''process_script.sh'', Getattr_run, Getitem_DATA ''id'',
       Read_file, Run_called (PyInt 42) [108, 115, 10, 233], Run_returned, Close_file,
       Gather_logging, Manager_deinit, Gather_pending, Loop_close],
      Inr ())"
  by (simp add: bootstrap_defs docker_env_def docker_executor_def import_docker_def)

lemma in_order_happens_before:
  "in_order lo hi tr \<Longrightarrow> happens_before a b tr \<Longrightarrow> phase a < phase b"
  by (induction tr arbitrary: lo) (auto simp: in_order_def)

lemma in_order_bounds: "in_order lo hi tr \<Longrightarrow> ev \<in> set tr \<Longrightarrow> lo \<le> phase ev \<and> phase ev \<le> hi"
  by (simp add: in_order_def)

lemma in_order_distinct: "in_order lo hi tr \<Longrightarrow> distinct tr"
proof (induction tr arbitrary: lo)
  case Nil
  then show ?case by simp
next
  case (Cons ev tr)
  then have rest: "in_order (phase ev + 1) hi tr" by simp
  from in_order_bounds [OF rest, of ev] have "ev \<notin> set tr" by auto
  with Cons.IH [OF rest] show ?case by simp
qed

lemma count_list_distinct: "distinct xs \<Longrightarrow> x \<in> set xs \<Longrightarrow> count_list xs x = 1"
  by (induction xs) auto

lemma sequential_success:
  assumes "snd (sequential env) = Inr u"
  shows "manager_init env = None \<and> snd (run_executor env) = Inr ()
         \<and> fst (sequential env) = Manager_init # fst (run_executor env)"
  using assms
  by (auto simp: sequential_def seq_step awaited_def split: option.splits)

lemma sequential_Cons: "\<exists>rest. fst (sequential env) = Manager_init # rest"
  by (simp add: sequential_def seq_step awaited_def split: option.splits)

lemma shutdown_success:
  assumes "snd (seq (step Gather_logging (gather (logging_future_list env))) (\<lambda>_.
                    seq (step Manager_deinit (awaited (manager_deinit env))) (\<lambda>_.
                    seq (step Gather_pending (gather (all_tasks env))) (\<lambda>_.
                    step Loop_close (Inr ()))))) = Inr u"
  shows "fst (seq (step Gather_logging (gather (logging_future_list env))) (\<lambda>_.
                    seq (step Manager_deinit (awaited (manager_deinit env))) (\<lambda>_.
                    seq (step Gather_pending (gather (all_tasks env))) (\<lambda>_.
                    step Loop_close (Inr ())))))
         = [Gather_logging, Manager_deinit, Gather_pending, Loop_close]"
  using assms by (simp add: seq_step split: sum.splits)

text \<open>
  C1. When the bootstrap succeeds (the script runs to its end), the command line named a
  module, and the trace is the one below: \<^verbatim>\<open>manager_commands.init()\<close> is called exactly
  once and before the run routine of the executor starts, the logging futures are gathered
  after the run routine has returned, and \<^verbatim>\<open>manager_commands.deinit()\<close> is called exactly
  once, after the run routine and after the gathering of the logging futures.
\<close>

theorem bootstrap_success_order:
  assumes "snd (main env) = Inr ()"
  shows "\<exists>m pid script.
           parse_args env = Namespace m
           \<and> fst (main env) =
               [Configure_logging, Manager_init, Parse_args,
                Import_module (m @ ''.run'') (package env), Getattr_class ''FlowExecutor'',
                Instantiate [], Open_file (PROCESS_SCRIPT env), Getattr_run,
                Getitem_DATA ''id'', Read_file, Run_called pid script, Run_returned,
                Close_file, Gather_logging, Manager_deinit, Gather_pending, Loop_close]
           \<and> count_list (fst (main env)) Manager_init = 1
           \<and> count_list (fst (main env)) Manager_deinit = 1
           \<and> happens_before Manager_init (Run_called pid script) (fst (main env))
           \<and> happens_before Run_returned Gather_logging (fst (main env))
           \<and> happens_before Run_returned Manager_deinit (fst (main env))
           \<and> happens_before Gather_logging Manager_deinit (fst (main env))"
proof -
  from assms have seq_ok: "snd (sequential env) = Inr ()"
    by (cases "snd (sequential env)") (simp_all add: main_unfold)
  with assms have "snd (seq (step Gather_logging (gather (logging_future_list env))) (\<lambda>_.
                    seq (step Manager_deinit (awaited (manager_deinit env))) (\<lambda>_.
                    seq (step Gather_pending (gather (all_tasks env))) (\<lambda>_.
                    step Loop_close (Inr ()))))) = Inr ()"
    by (simp add: main_unfold)
  from shutdown_success [OF this] seq_ok
  have tr: "fst (main env) = Configure_logging # fst (sequential env)
      @ [Gather_logging, Manager_deinit, Gather_pending, Loop_close]"
    by (simp add: main_unfold)
  from sequential_success [OF seq_ok]
  have run_ok: "snd (run_executor env) = Inr ()"
    and tr': "fst (sequential env) = Manager_init # fst (run_executor env)"
    by simp_all
  from run_executor_success [OF run_ok] obtain m pid script where
    m: "parse_args env = Namespace m" and
    tr'': "fst (run_executor env)
               = [Parse_args, Import_module (m @ ''.run'') (package env),
                  Getattr_class ''FlowExecutor'', Instantiate [],
                  Open_file (PROCESS_SCRIPT env),
                  Getattr_run, Getitem_DATA ''id'', Read_file, Run_called pid script,
                  Run_returned, Close_file]"
    by blast
  show ?thesis
    by (rule exI [of _ m], rule exI [of _ pid], rule exI [of _ script])
      (simp add: m tr tr' tr'')
qed

theorem bootstrap_success_order_witness:
  "snd (main docker_env) = Inr ()
   \<and> happens_before Manager_init (Run_called (PyInt 42) [108, 115, 10, 233])
        (fst (main docker_env))
   \<and> happens_before Run_returned Gather_logging (fst (main docker_env))
   \<and> happens_before Gather_logging Manager_deinit (fst (main docker_env))
   \<and> count_list (fst (main docker_env)) Manager_init = 1
   \<and> count_list (fst (main docker_env)) Manager_deinit = 1"
proof -
  have ok: "snd (main docker_env) = Inr ()"
    by (simp add: main_docker_env)
  from bootstrap_success_order [OF ok] ok show ?thesis
    by (auto simp: main_docker_env)
qed

lemmas example_defs =
  docker_env_def docker_executor_def failing_executor_def import_docker_def failing_env_def
  nosuch_env_def usage_env_def latin1_env_def init_fails_env_def usage_init_fails_env_def

lemma main_failing_env:
  "main failing_env =
     ([Configure_logging, Manager_init, Parse_args,
       Import_module ''.docker.run'' ''executors'', Getattr_class ''FlowExecutor'',
       Instantiate [], Open_file ''process_script.sh'', Getattr_run, Getitem_DATA ''id'',
       Read_file, Run_called (PyInt 42) [108, 115, 10, 233],
       Run_raised (RuntimeError ''process failed''), Close_file],
      Inl (Exception (RuntimeError ''process failed'')))"
  by (simp add: bootstrap_defs example_defs)

lemma main_nosuch_env:
  "main nosuch_env =
     ([Configure_logging, Manager_init, Parse_args,
       Import_module ''.nosuch.run'' ''executors''],
      Inl (Exception ModuleNotFoundError))"
  by (simp add: bootstrap_defs example_defs)

lemma main_usage_env:
  "main usage_env = ([Configure_logging, Manager_init, Parse_args], Inl (SystemExit 2))"
  by (simp add: bootstrap_defs example_defs)

lemma main_latin1_env:
  "main latin1_env =
     ([Configure_logging, Manager_init, Parse_args,
       Import_module ''.docker.run'' ''executors'', Getattr_class ''FlowExecutor'',
       Instantiate [], Open_file ''process_script.sh'', Getattr_run, Getitem_DATA ''id'',
       Read_file, Run_called (PyInt 42) [108, 115, 10, 195, 169], Run_returned, Close_file,
       Gather_logging, Manager_deinit, Gather_pending, Loop_close],
      Inr ())"
  by (simp add: bootstrap_defs example_defs)

text \<open>
  C2, as stated, fails: with a module name that cannot be imported, the bootstrap fails
  at the import, and \<^verbatim>\<open>manager_commands.init()\<close> has been called by then, since
  \<^verbatim>\<open>_sequential\<close> awaits it before \<^verbatim>\<open>run_executor\<close>.
\<close>

theorem invalid_module_counterexample:
  "parse_args nosuch_env = Namespace ''.nosuch''
   \<and> \<not> resolvable nosuch_env ''.nosuch''
   \<and> main nosuch_env =
       ([Configure_logging, Manager_init, Parse_args,
         Import_module ''.nosuch.run'' ''executors''],
        Inl (Exception ModuleNotFoundError))
   \<and> Manager_init \<in> set (fst (main nosuch_env))"
  by (simp add: main_nosuch_env) (simp add: example_defs resolvable_def)

text \<open>
  C2, amended. When \<^verbatim>\<open>manager_commands.init()\<close> returns and the module named on the
  command line cannot be resolved (the import raises, or the module has no
  \<^verbatim>\<open>FlowExecutor\<close>), the bootstrap ends with an exception at the import or at the lookup
  of the class: the call of \<^verbatim>\<open>init\<close> has happened, exactly once and before the import, and
  no later step is taken.
\<close>

theorem invalid_module_fails_after_init:
  assumes "manager_init env = None" and "parse_args env = Namespace m"
    and "\<not> resolvable env m"
  shows "(\<exists>e. snd (main env) = Inl (Exception e))
     \<and> (fst (main env) =
           [Configure_logging, Manager_init, Parse_args,
            Import_module (m @ ''.run'') (package env)]
        \<or> fst (main env) =
           [Configure_logging, Manager_init, Parse_args,
            Import_module (m @ ''.run'') (package env), Getattr_class ''FlowExecutor''])
     \<and> count_list (fst (main env)) Manager_init = 1
     \<and> happens_before Manager_init (Import_module (m @ ''.run'') (package env))
          (fst (main env))"
  using assms
  by (auto simp: resolvable_def main_def sequential_def run_executor_def seq_step awaited_def
      lookup_def Let_def split: sum.splits option.splits)

theorem invalid_module_fails_after_init_witness:
  "manager_init nosuch_env = None \<and> parse_args nosuch_env = Namespace ''.nosuch''
   \<and> \<not> resolvable nosuch_env ''.nosuch''
   \<and> count_list (fst (main nosuch_env)) Manager_init = 1
   \<and> happens_before Manager_init (Import_module ''.nosuch.run'' ''executors'')
        (fst (main nosuch_env))"
proof -
  have h: "manager_init nosuch_env = None" "parse_args nosuch_env = Namespace ''.nosuch''"
    "\<not> resolvable nosuch_env ''.nosuch''"
    by (simp_all add: example_defs resolvable_def)
  have "package nosuch_env = ''executors''" by (simp add: example_defs)
  with invalid_module_fails_after_init [OF h] h show ?thesis by simp
qed

lemma happens_before_append:
  "a \<in> set xs \<Longrightarrow> b \<in> set ys \<Longrightarrow> happens_before a b (xs @ ys)"
  by (induction xs) auto

lemma happens_before_Cons: "happens_before a b xs \<Longrightarrow> happens_before a b (x # xs)"
  by simp

lemma sequential_bounds:
  "ev \<in> set (fst (sequential env)) \<Longrightarrow> 1 \<le> phase ev \<and> phase ev \<le> 12"
  by (rule in_order_bounds [OF sequential_in_order])

lemma main_failure:
  assumes "snd (sequential env) = Inl e"
  shows "main env = (Configure_logging # fst (sequential env), Inl e)"
  using assms by (simp add: main_unfold)

lemma main_init_raises:
  "manager_init env = Some e \<Longrightarrow> main env = ([Configure_logging, Manager_init], Inl (Exception e))"
  by (simp add: main_def sequential_def seq_step awaited_def)

lemma main_init_returns:
  "manager_init env = None \<Longrightarrow>
   main env =
     (case snd (run_executor env) of
        Inl e \<Rightarrow> (Configure_logging # Manager_init # fst (run_executor env), Inl e)
      | Inr _ \<Rightarrow>
          (Configure_logging # Manager_init # fst (run_executor env)
             @ fst (seq (step Gather_logging (gather (logging_future_list env))) (\<lambda>_.
                    seq (step Manager_deinit (awaited (manager_deinit env))) (\<lambda>_.
                    seq (step Gather_pending (gather (all_tasks env))) (\<lambda>_.
                    step Loop_close (Inr ()))))),
           snd (seq (step Gather_logging (gather (logging_future_list env))) (\<lambda>_.
                    seq (step Manager_deinit (awaited (manager_deinit env))) (\<lambda>_.
                    seq (step Gather_pending (gather (all_tasks env))) (\<lambda>_.
                    step Loop_close (Inr ())))))))"
  by (simp add: main_unfold sequential_def seq_step awaited_def split: sum.splits)

lemma main_run_executor_raises:
  "manager_init env = None \<Longrightarrow> run_executor env = (tr, Inl e) \<Longrightarrow>
   main env = (Configure_logging # Manager_init # tr, Inl e)"
  by (simp add: main_init_returns)

lemmas run_executor_unfold =
  run_executor_def executor_run_def seq_step lookup_def Let_def ensure_def

text \<open>
  C3. When a step of the sequence raises, the steps before it having returned, the script
  ends there with that exception, whichever step it is: \<^verbatim>\<open>manager_commands.init()\<close>; the
  import of the module, the lookup of \<^verbatim>\<open>FlowExecutor\<close> or the call of the class; the opening
  of the script file, the lookup of \<^verbatim>\<open>run\<close> or of \<^verbatim>\<open>DATA["id"]\<close>, or the reading of the file;
  or the run routine, called with the identifier and the script. The trace is the steps up
  to the one that raised, each once, followed only by the closing of the file when the
  \<^verbatim>\<open>with\<close> block had been entered: nothing is tried again, and neither the gathering of the
  logging futures, nor \<^verbatim>\<open>manager_commands.deinit()\<close>, nor the final gathering, nor the closing
  of the loop takes place.
\<close>

theorem failure_aborts_sequence:
  "(\<forall>e. manager_init env = Some e \<longrightarrow>
      main env = ([Configure_logging, Manager_init], Inl (Exception e)))
   \<and> (manager_init env = None \<longrightarrow> (\<forall>m. parse_args env = Namespace m \<longrightarrow>
      (\<forall>e. import_module env (m @ ''.run'') (package env) = Inl e \<longrightarrow>
         main env =
           ([Configure_logging, Manager_init, Parse_args,
             Import_module (m @ ''.run'') (package env)],
            Inl (Exception e)))
      \<and> (\<forall>md. import_module env (m @ ''.run'') (package env) = Inr md \<longrightarrow>
         (md ''FlowExecutor'' = None \<longrightarrow>
            main env =
              ([Configure_logging, Manager_init, Parse_args,
                Import_module (m @ ''.run'') (package env), Getattr_class ''FlowExecutor''],
               Inl (Exception AttributeError)))
         \<and> (\<forall>c. md ''FlowExecutor'' = Some c \<longrightarrow>
            (\<forall>e. instantiate c [] = Inl e \<longrightarrow>
               main env =
                 ([Configure_logging, Manager_init, Parse_args,
                   Import_module (m @ ''.run'') (package env),
                   Getattr_class ''FlowExecutor'', Instantiate []],
                  Inl (Exception e)))
            \<and> (\<forall>ex. instantiate c [] = Inr ex \<longrightarrow>
               (files env (PROCESS_SCRIPT env) = None \<longrightarrow>
                  main env =
                    ([Configure_logging, Manager_init, Parse_args,
                      Import_module (m @ ''.run'') (package env),
                      Getattr_class ''FlowExecutor'', Instantiate [],
                      Open_file (PROCESS_SCRIPT env)],
                     Inl (Exception FileNotFoundError)))
               \<and> (\<forall>bytes. files env (PROCESS_SCRIPT env) = Some bytes \<longrightarrow>
                  (run_method ex = None \<longrightarrow>
                     main env =
                       ([Configure_logging, Manager_init, Parse_args,
                         Import_module (m @ ''.run'') (package env),
                         Getattr_class ''FlowExecutor'', Instantiate [],
                         Open_file (PROCESS_SCRIPT env), Getattr_run, Close_file],
                        Inl (Exception AttributeError)))
                  \<and> (\<forall>run. run_method ex = Some run \<longrightarrow>
                     (DATA env ''id'' = None \<longrightarrow>
                        main env =
                          ([Configure_logging, Manager_init, Parse_args,
                            Import_module (m @ ''.run'') (package env),
                            Getattr_class ''FlowExecutor'', Instantiate [],
                            Open_file (PROCESS_SCRIPT env), Getattr_run,
                            Getitem_DATA ''id'', Close_file],
                           Inl (Exception KeyError)))
                     \<and> (\<forall>pid. DATA env ''id'' = Some pid \<longrightarrow>
                        (\<forall>e. script_file_read env bytes = Inl e \<longrightarrow>
                           main env =
                             ([Configure_logging, Manager_init, Parse_args,
                               Import_module (m @ ''.run'') (package env),
                               Getattr_class ''FlowExecutor'', Instantiate [],
                               Open_file (PROCESS_SCRIPT env), Getattr_run,
                               Getitem_DATA ''id'', Read_file, Close_file],
                              Inl (Exception e)))
                        \<and> (\<forall>script e.
                             script_file_read env bytes = Inr script
                               \<and> run pid script = Some e \<longrightarrow>
                           main env =
                             ([Configure_logging, Manager_init, Parse_args,
                               Import_module (m @ ''.run'') (package env),
                               Getattr_class ''FlowExecutor'', Instantiate [],
                               Open_file (PROCESS_SCRIPT env), Getattr_run,
                               Getitem_DATA ''id'', Read_file, Run_called pid script,
                               Run_raised e, Close_file],
                              Inl (Exception e)))))))))))"
proof (intro conjI allI impI; (elim conjE)?)
  fix e assume "manager_init env = Some e"
  then show "main env = ([Configure_logging, Manager_init], Inl (Exception e))"
    by (rule main_init_raises)
qed (rule main_run_executor_raises, assumption, simp add: run_executor_unfold)+


theorem failure_aborts_sequence_witness:
  "main init_fails_env =
     ([Configure_logging, Manager_init], Inl (Exception (RuntimeError ''manager unreachable'')))
   \<and> main failing_env =
     ([Configure_logging, Manager_init, Parse_args,
       Import_module ''.docker.run'' ''executors'', Getattr_class ''FlowExecutor'',
       Instantiate [], Open_file ''process_script.sh'', Getattr_run, Getitem_DATA ''id'',
       Read_file, Run_called (PyInt 42) [108, 115, 10, 233],
       Run_raised (RuntimeError ''process failed''), Close_file],
      Inl (Exception (RuntimeError ''process failed'')))"
proof -
  have a: "manager_init init_fails_env = Some (RuntimeError ''manager unreachable'')"
    by (simp add: init_fails_env_def docker_env_def)
  have b: "manager_init failing_env = None" "parse_args failing_env = Namespace ''.docker''"
    "package failing_env = ''executors''" "PROCESS_SCRIPT failing_env = ''process_script.sh''"
    "import_module failing_env ''.docker.run'' ''executors''
       = Inr [''FlowExecutor'' \<mapsto>
                PyClass (\<lambda>args. if args = [] then Inr failing_executor else Inl TypeError)]"
    "files failing_env ''process_script.sh''
       = Some [CHR ''l'', CHR ''s'', CHR 0x0D, CHR 0x0A, CHR 0xC3, CHR 0xA9]"
    "DATA failing_env ''id'' = Some (PyInt 42)"
    by (simp_all add: docker_env_def failing_env_def import_docker_def)
  have c: "script_file_read failing_env
       [CHR ''l'', CHR ''s'', CHR 0x0D, CHR 0x0A, CHR 0xC3, CHR 0xA9]
     = Inr [108, 115, 10, 233]"
    by (simp add: script_file_read_def decode_def continuation_def example_defs)
  have d: "run_method failing_executor
     = Some (\<lambda>pid script. Some (RuntimeError ''process failed''))"
    by (simp add: failing_executor_def)
  from failure_aborts_sequence [of init_fails_env] a
  have "main init_fails_env =
     ([Configure_logging, Manager_init], Inl (Exception (RuntimeError ''manager unreachable'')))"
    by blast
  moreover from failure_aborts_sequence [of failing_env] b c d
  have "main failing_env =
     ([Configure_logging, Manager_init, Parse_args,
       Import_module ''.docker.run'' ''executors'', Getattr_class ''FlowExecutor'',
       Instantiate [], Open_file ''process_script.sh'', Getattr_run, Getitem_DATA ''id'',
       Read_file, Run_called (PyInt 42) [108, 115, 10, 233],
       Run_raised (RuntimeError ''process failed''), Close_file],
      Inl (Exception (RuntimeError ''process failed'')))"
    by simp
  ultimately show ?thesis by simp
qed

lemma is_run_event_phase: "is_run_event ev \<Longrightarrow> phase ev = 10 \<or> phase ev = 11"
  by (cases ev) simp_all

text \<open>
  C4. In every invocation: when the run routine raises, \<^verbatim>\<open>manager_commands.deinit()\<close> is
  not called at all; no call of \<^verbatim>\<open>deinit\<close> precedes any event of the run routine; every
  event of the run routine is preceded by the call of \<^verbatim>\<open>init\<close>; and when \<^verbatim>\<open>deinit\<close> is
  called, the run routine has returned before.
\<close>

theorem deinit_never_before_run_completes:
  "(\<forall>e. Run_raised e \<in> set (fst (main env)) \<longrightarrow> Manager_deinit \<notin> set (fst (main env)))
   \<and> (\<forall>ev. is_run_event ev \<longrightarrow> \<not> happens_before Manager_deinit ev (fst (main env)))
   \<and> (\<forall>ev \<in> set (fst (main env)).
         is_run_event ev \<longrightarrow> happens_before Manager_init ev (fst (main env)))
   \<and> (Manager_deinit \<in> set (fst (main env))
         \<longrightarrow> happens_before Run_returned Manager_deinit (fst (main env)))"
proof (intro conjI allI ballI impI)
  fix ev assume run: "is_run_event ev"
  show "\<not> happens_before Manager_deinit ev (fst (main env))"
  proof
    assume "happens_before Manager_deinit ev (fst (main env))"
    from in_order_happens_before [OF main_in_order this] is_run_event_phase [OF run]
    show False by auto
  qed
next
  fix ev assume ev: "ev \<in> set (fst (main env))" and run: "is_run_event ev"
  obtain rest where rest: "fst (sequential env) = Manager_init # rest"
    using sequential_Cons by blast
  from is_run_event_phase [OF run] have ph: "10 \<le> phase ev \<and> phase ev \<le> 11" by auto
  have "ev \<in> set (fst (sequential env))"
  proof (cases "snd (sequential env)")
    case (Inl e)
    with ev ph show ?thesis by (auto simp: main_unfold)
  next
    case (Inr u)
    with ev ph in_order_bounds [OF shutdown_in_order, of ev env] show ?thesis
      by (auto simp: main_unfold)
  qed
  with rest ph have "ev \<in> set rest" by auto
  then show "happens_before Manager_init ev (fst (main env))"
    using rest by (cases "snd (sequential env)") (simp_all add: main_unfold)
next
  assume deinit: "Manager_deinit \<in> set (fst (main env))"
  have ok: "snd (sequential env) = Inr ()"
  proof (cases "snd (sequential env)")
    case (Inl e)
    with deinit sequential_bounds [of Manager_deinit env] show ?thesis
      by (auto simp: main_unfold)
  qed simp
  from sequential_success [OF ok] run_executor_success [of env "()"]
  have "Run_returned \<in> set (fst (sequential env))" by auto
  moreover from deinit ok sequential_bounds [of Manager_deinit env]
  have "Manager_deinit \<in> set (fst (seq (step Gather_logging (gather (logging_future_list env))) (\<lambda>_.
                    seq (step Manager_deinit (awaited (manager_deinit env))) (\<lambda>_.
                    seq (step Gather_pending (gather (all_tasks env))) (\<lambda>_.
                    step Loop_close (Inr ()))))))"
    by (auto simp: main_unfold)
  ultimately show "happens_before Run_returned Manager_deinit (fst (main env))"
    using ok by (simp add: main_unfold happens_before_append)
next
  fix e assume raised: "Run_raised e \<in> set (fst (main env))"
  show "Manager_deinit \<notin> set (fst (main env))"
  proof (cases "snd (sequential env)")
    case (Inl e')
    with sequential_bounds [of Manager_deinit env] show ?thesis
      by (auto simp: main_unfold)
  next
    case (Inr u)
    then have ok: "snd (sequential env) = Inr ()" by simp
    from sequential_success [OF ok] run_executor_success [of env "()"]
    have "Run_raised e \<notin> set (fst (sequential env))" by auto
    with raised ok in_order_bounds [OF shutdown_in_order, of "Run_raised e" env]
    show ?thesis by (auto simp: main_unfold)
  qed
qed

theorem deinit_never_before_run_completes_witness:
  "Run_raised (RuntimeError ''process failed'') \<in> set (fst (main failing_env))
   \<and> Manager_deinit \<notin> set (fst (main failing_env))
   \<and> Manager_deinit \<in> set (fst (main docker_env))
   \<and> happens_before Run_returned Manager_deinit (fst (main docker_env))
   \<and> happens_before Manager_init (Run_raised (RuntimeError ''process failed''))
        (fst (main failing_env))"
proof -
  have a: "Run_raised (RuntimeError ''process failed'') \<in> set (fst (main failing_env))"
    by (simp add: main_failing_env)
  have b: "Manager_deinit \<in> set (fst (main docker_env))"
    by (simp add: main_docker_env)
  have c: "is_run_event (Run_raised (RuntimeError ''process failed''))" by simp
  from deinit_never_before_run_completes [of failing_env]
    deinit_never_before_run_completes [of docker_env] a b c
  show ?thesis by blast
qed

text \<open>
  C5. For a module argument \<^verbatim>\<open>m\<close>, \<^verbatim>\<open>run_executor\<close> imports the module named
  \<^verbatim>\<open>m\<close> followed by \<^verbatim>\<open>.run\<close>, relative to the package; when the import returns, it looks
  up \<^verbatim>\<open>FlowExecutor\<close> in that module; when the class is there, it calls it with no
  argument; and the executor that is then run, once the script file is open, is the object
  this call returned.
\<close>

theorem executor_resolution:
  assumes "parse_args env = Namespace m"
  shows "(\<exists>rest. fst (run_executor env)
            = Parse_args # Import_module (m @ ''.run'') (package env) # rest)
   \<and> (\<forall>md. import_module env (m @ ''.run'') (package env) = Inr md \<longrightarrow>
        (\<exists>rest. fst (run_executor env)
            = Parse_args # Import_module (m @ ''.run'') (package env)
                # Getattr_class ''FlowExecutor'' # rest)
        \<and> (\<forall>c. md ''FlowExecutor'' = Some c \<longrightarrow>
             (\<exists>rest. fst (run_executor env)
                = Parse_args # Import_module (m @ ''.run'') (package env)
                    # Getattr_class ''FlowExecutor'' # Instantiate [] # rest)
             \<and> (\<forall>ex bytes.
                   instantiate c [] = Inr ex \<and> files env (PROCESS_SCRIPT env) = Some bytes \<longrightarrow>
                   run_executor env =
                     ([Parse_args, Import_module (m @ ''.run'') (package env),
                       Getattr_class ''FlowExecutor'', Instantiate [],
                       Open_file (PROCESS_SCRIPT env)]
                        @ fst (executor_run ex env bytes) @ [Close_file],
                      snd (executor_run ex env bytes)))))"
  using assms
  by (auto simp: run_executor_def seq_step lookup_def Let_def ensure_def
      split: sum.splits option.splits prod.splits)

theorem executor_resolution_witness:
  "parse_args docker_env = Namespace ''.docker''
   \<and> (\<exists>rest. fst (run_executor docker_env)
          = Parse_args # Import_module ''.docker.run'' ''executors'' # rest)"
proof -
  have h: "parse_args docker_env = Namespace ''.docker''"
    by (simp add: example_defs)
  have "package docker_env = ''executors''" by (simp add: example_defs)
  with executor_resolution [OF h] h show ?thesis by simp
qed

lemma executor_run_Run_called:
  "Run_called pid script \<in> set (fst (executor_run ex env bytes)) \<longleftrightarrow>
     (\<exists>run. run_method ex = Some run) \<and> DATA env ''id'' = Some pid
     \<and> script_file_read env bytes = Inr script"
  by (auto simp: executor_run_def seq_step lookup_def split: sum.splits option.splits)

lemma run_executor_Run_called:
  "Run_called pid script \<in> set (fst (run_executor env)) \<longleftrightarrow>
     (\<exists>m md c ex run bytes.
        parse_args env = Namespace m
        \<and> import_module env (m @ ''.run'') (package env) = Inr md
        \<and> md ''FlowExecutor'' = Some c \<and> instantiate c [] = Inr ex
        \<and> run_method ex = Some run
        \<and> files env (PROCESS_SCRIPT env) = Some bytes
        \<and> DATA env ''id'' = Some pid
        \<and> script_file_read env bytes = Inr script)"
  by (auto simp: run_executor_def seq_step lookup_def Let_def executor_run_Run_called
      split: sum.splits option.splits argparse_outcome.splits)

lemma main_Run_called:
  "Run_called pid script \<in> set (fst (main env)) \<longleftrightarrow>
     manager_init env = None \<and> Run_called pid script \<in> set (fst (run_executor env))"
proof -
  have "Run_called pid script \<in> set (fst (main env)) \<longleftrightarrow>
      Run_called pid script \<in> set (fst (sequential env))"
    using in_order_bounds [OF shutdown_in_order, of "Run_called pid script" env]
    by (cases "snd (sequential env)") (auto simp: main_unfold)
  also have "\<dots> \<longleftrightarrow> manager_init env = None
      \<and> Run_called pid script \<in> set (fst (run_executor env))"
    by (auto simp: sequential_def seq_step awaited_def split: option.splits)
  finally show ?thesis .
qed

text \<open>
  C6, as stated, fails: the file is not read as UTF-8 but in the preferred encoding of the
  platform. Where that is Latin-1, the two bytes C3 A9 reach the run routine as two code
  points, and not as the one code point E9 that they are in UTF-8.
\<close>

theorem script_read_as_utf_8_counterexample:
  "files latin1_env (PROCESS_SCRIPT latin1_env)
     = Some [CHR ''l'', CHR ''s'', CHR 0x0A, CHR 0xC3, CHR 0xA9]
   \<and> decode UTF_8 [CHR ''l'', CHR ''s'', CHR 0x0A, CHR 0xC3, CHR 0xA9]
       = Inr [108, 115, 10, 233]
   \<and> fst (main latin1_env) =
       [Configure_logging, Manager_init, Parse_args,
        Import_module ''.docker.run'' ''executors'', Getattr_class ''FlowExecutor'',
        Instantiate [], Open_file ''process_script.sh'', Getattr_run, Getitem_DATA ''id'',
        Read_file, Run_called (PyInt 42) [108, 115, 10, 195, 169], Run_returned, Close_file,
        Gather_logging, Manager_deinit, Gather_pending, Loop_close]"
  by (simp add: bootstrap_defs example_defs)

text \<open>
  C6, amended. The run routine is called with a process identifier and a script exactly
  when \<^verbatim>\<open>manager_commands.init()\<close> returned, the executor was resolved and has a run
  routine, the identifier is the value of \<^verbatim>\<open>DATA\<close> under \<^verbatim>\<open>id\<close>, and the script is the
  text of the file at \<^verbatim>\<open>PROCESS_SCRIPT\<close>, decoded with the preferred encoding of the
  platform and with universal newlines; the bootstrap itself changes nothing in it.
\<close>

theorem run_receives_id_and_script:
  "Run_called pid script \<in> set (fst (main env)) \<longleftrightarrow>
     manager_init env = None
     \<and> (\<exists>m md c ex run bytes decoded.
          parse_args env = Namespace m
          \<and> import_module env (m @ ''.run'') (package env) = Inr md
          \<and> md ''FlowExecutor'' = Some c \<and> instantiate c [] = Inr ex
          \<and> run_method ex = Some run
          \<and> files env (PROCESS_SCRIPT env) = Some bytes
          \<and> DATA env ''id'' = Some pid
          \<and> decode (preferred_encoding env) bytes = Inr decoded
          \<and> script = universal_newlines decoded)"
  unfolding main_Run_called run_executor_Run_called script_file_read_def
  by (intro arg_cong2 [where f = "(\<and>)"] refl ex_cong1)
     (auto simp: map_sum_def split: sum.splits)

theorem run_receives_id_and_script_witness:
  "Run_called (PyInt 42) [108, 115, 10, 233] \<in> set (fst (main docker_env))
   \<and> manager_init docker_env = None
   \<and> DATA docker_env ''id'' = Some (PyInt 42)
   \<and> universal_newlines [108, 115, 13, 10, 233] = [108, 115, 10, 233]"
proof -
  have a: "Run_called (PyInt 42) [108, 115, 10, 233] \<in> set (fst (main docker_env))"
    by (simp add: main_docker_env)
  from a run_receives_id_and_script [of "PyInt 42" "[108, 115, 10, 233]" docker_env]
  have "manager_init docker_env = None \<and> DATA docker_env ''id'' = Some (PyInt 42)"
    by blast
  with a show ?thesis by simp
qed

text \<open>
  C7, as stated, fails: the error is not reported immediately. The command line is parsed
  inside \<^verbatim>\<open>run_executor\<close>, which \<^verbatim>\<open>_sequential\<close> awaits after
  \<^verbatim>\<open>manager_commands.init()\<close>: with the argument missing, the call of \<^verbatim>\<open>init\<close> comes before
  the parsing, and when \<^verbatim>\<open>init\<close> raises the arguments are never parsed and the usage error
  is not reported at all.
\<close>

theorem argument_error_reported_immediately_counterexample:
  "parse_args usage_env = Usage_error
   \<and> main usage_env = ([Configure_logging, Manager_init, Parse_args], Inl (SystemExit 2))
   \<and> happens_before Manager_init Parse_args (fst (main usage_env))
   \<and> parse_args usage_init_fails_env = Usage_error
   \<and> main usage_init_fails_env =
       ([Configure_logging, Manager_init],
        Inl (Exception (RuntimeError ''manager unreachable'')))"
  by (simp add: bootstrap_defs example_defs usage_init_fails_env_def)

lemma usage_error_main:
  "parse_args env = Usage_error \<Longrightarrow> manager_init env = None \<Longrightarrow>
   main env = ([Configure_logging, Manager_init, Parse_args], Inl (SystemExit 2))"
  by (simp add: main_init_returns run_executor_def)

lemma unresolvable_main:
  "parse_args env = Namespace m \<Longrightarrow> \<not> resolvable env m \<Longrightarrow> manager_init env = None \<Longrightarrow>
   exit_status (snd (main env)) = 1
   \<and> (fst (main env) =
         [Configure_logging, Manager_init, Parse_args,
          Import_module (m @ ''.run'') (package env)]
      \<or> fst (main env) =
         [Configure_logging, Manager_init, Parse_args,
          Import_module (m @ ''.run'') (package env), Getattr_class ''FlowExecutor''])"
  by (auto simp: resolvable_def main_init_returns run_executor_def seq_step lookup_def Let_def
      split: sum.splits option.splits)

text \<open>
  C7, amended. When the module argument is missing (\<^verbatim>\<open>argparse\<close> reports a usage error) or
  names a module that cannot be resolved, the exit status of the process is not 0. The
  argument is looked at only after \<^verbatim>\<open>manager_commands.init()\<close>: when \<^verbatim>\<open>init\<close> raises, the
  script ends with that exception and the arguments are not parsed; when \<^verbatim>\<open>init\<close> returns,
  a usage error ends the script at the parsing with status 2, and a module that cannot be
  resolved ends it at the import or at the lookup of the class with status 1, and no later
  step is taken.
\<close>

theorem argument_error_exits_nonzero:
  "(parse_args env = Usage_error \<or> (\<exists>m. parse_args env = Namespace m \<and> \<not> resolvable env m)
      \<longrightarrow> exit_status (snd (main env)) \<noteq> 0
          \<and> (\<forall>e. manager_init env = Some e \<longrightarrow>
                main env = ([Configure_logging, Manager_init], Inl (Exception e))))
   \<and> (parse_args env = Usage_error \<and> manager_init env = None \<longrightarrow>
        main env = ([Configure_logging, Manager_init, Parse_args], Inl (SystemExit 2)))
   \<and> (\<forall>m. parse_args env = Namespace m \<and> \<not> resolvable env m \<and> manager_init env = None \<longrightarrow>
        exit_status (snd (main env)) = 1
        \<and> (fst (main env) =
              [Configure_logging, Manager_init, Parse_args,
               Import_module (m @ ''.run'') (package env)]
           \<or> fst (main env) =
              [Configure_logging, Manager_init, Parse_args,
               Import_module (m @ ''.run'') (package env), Getattr_class ''FlowExecutor'']))"
proof (intro conjI allI impI)
  assume bad: "parse_args env = Usage_error
      \<or> (\<exists>m. parse_args env = Namespace m \<and> \<not> resolvable env m)"
  show "exit_status (snd (main env)) \<noteq> 0"
  proof (cases "manager_init env")
    case (Some e)
    then show ?thesis by (simp add: main_init_raises)
  next
    case None
    from bad show ?thesis
    proof
      assume "parse_args env = Usage_error"
      with None show ?thesis by (simp add: usage_error_main)
    next
      assume "\<exists>m. parse_args env = Namespace m \<and> \<not> resolvable env m"
      then obtain m where "parse_args env = Namespace m" "\<not> resolvable env m" by blast
      from unresolvable_main [OF this None] show ?thesis by simp
    qed
  qed
next
  fix e assume "manager_init env = Some e"
  then show "main env = ([Configure_logging, Manager_init], Inl (Exception e))"
    by (rule main_init_raises)
next
  assume "parse_args env = Usage_error \<and> manager_init env = None"
  then show "main env = ([Configure_logging, Manager_init, Parse_args], Inl (SystemExit 2))"
    by (simp add: usage_error_main)
next
  fix m assume h: "parse_args env = Namespace m \<and> \<not> resolvable env m \<and> manager_init env = None"
  then have h': "parse_args env = Namespace m" "\<not> resolvable env m" "manager_init env = None"
    by simp_all
  note r = unresolvable_main [OF h']
  from r show "exit_status (snd (main env)) = 1" by (rule conjunct1)
  from r show "fst (main env) =
              [Configure_logging, Manager_init, Parse_args,
               Import_module (m @ ''.run'') (package env)]
           \<or> fst (main env) =
              [Configure_logging, Manager_init, Parse_args,
               Import_module (m @ ''.run'') (package env), Getattr_class ''FlowExecutor'']"
    by (rule conjunct2)
qed

theorem argument_error_exits_nonzero_witness:
  "parse_args usage_env = Usage_error \<and> manager_init usage_env = None
   \<and> exit_status (snd (main usage_env)) = 2
   \<and> parse_args nosuch_env = Namespace ''.nosuch'' \<and> \<not> resolvable nosuch_env ''.nosuch''
   \<and> exit_status (snd (main nosuch_env)) = 1
   \<and> parse_args usage_init_fails_env = Usage_error
   \<and> exit_status (snd (main usage_init_fails_env)) = 1"
proof -
  have a: "parse_args usage_env = Usage_error" "manager_init usage_env = None"
    by (simp_all add: example_defs)
  have b: "parse_args nosuch_env = Namespace ''.nosuch''" "\<not> resolvable nosuch_env ''.nosuch''"
    "manager_init nosuch_env = None"
    by (simp_all add: example_defs resolvable_def)
  have c: "parse_args usage_init_fails_env = Usage_error"
    "manager_init usage_init_fails_env = Some (RuntimeError ''manager unreachable'')"
    by (simp_all add: example_defs usage_init_fails_env_def)
  from argument_error_exits_nonzero [of usage_env] a
  have "main usage_env = ([Configure_logging, Manager_init, Parse_args], Inl (SystemExit 2))"
    by blast
  moreover from argument_error_exits_nonzero [of nosuch_env] b
  have "exit_status (snd (main nosuch_env)) = 1" by simp
  moreover from argument_error_exits_nonzero [of usage_init_fails_env] c
  have "main usage_init_fails_env =
      ([Configure_logging, Manager_init],
       Inl (Exception (RuntimeError ''manager unreachable'')))"
    by blast
  ultimately show ?thesis using a b c by simp
qed

subsection \<open>The relation serializer\<close>

lemma atomic_failure: "fst (atomic body db) = Inl e \<Longrightarrow> snd (atomic body db) = db"
  by (auto simp: atomic_def split: prod.splits sum.splits)

lemma atomic_success:
  "fst (atomic body db) = Inr x \<Longrightarrow> body db = (Inr x, snd (atomic body db))"
  by (auto simp: atomic_def split: prod.splits sum.splits)

lemma orm_bind_success:
  assumes "orm_bind m f db = (Inr y, db')"
  obtains x db1 where "m db = (Inr x, db1)" and "f x db1 = (Inr y, db')"
  using assms by (auto simp: orm_bind_def split: prod.splits sum.splits)

lemma orm_return_success: "orm_return x db = (Inr y, db') \<Longrightarrow> x = y \<and> db' = db"
  by (simp add: orm_return_def)

lemma relation_pk_attrs_update [simp]:
  "relation_pk (r\<lparr>relation_attrs := a\<rparr>) = relation_pk r"
  by simp

lemma create_partitions_success:
  assumes "create_partitions integ instance partitions db = (Inr u, db')"
  shows "\<exists>rows. db' = db\<lparr>RelationPartition_objects := RelationPartition_objects db @ rows\<rparr>
           \<and> map partition_content rows = map given_content partitions
           \<and> (\<forall>p \<in> set rows. partition_relation p = relation_pk instance)"
  using assms
proof (induction partitions arbitrary: db)
  case Nil
  then show ?case by (simp add: orm_return_def)
next
  case (Cons part partitions)
  from Cons.prems obtain entity where ent: "map_of part ''entity'' = Some entity"
    by (cases "map_of part ''entity''")
      (auto simp: orm_bind_def getitem_def orm_raise_def)
  let ?row = "\<lparr>partition_pk = next_pk (map partition_pk (RelationPartition_objects db)),
                 partition_relation = relation_pk instance,
                 partition_entity = entity,
                 partition_label = dict_get part ''label'' PyNone,
                 partition_position = dict_get part ''position'' PyNone\<rparr>"
  let ?db1 = "db\<lparr>RelationPartition_objects := RelationPartition_objects db @ [?row]\<rparr>"
  from Cons.prems ent have ok: "integ db (Insert_partition ?row) = None"
    by (cases "integ db (Insert_partition ?row)")
      (auto simp: orm_bind_def getitem_def orm_return_def
        RelationPartition_objects_create_def execute_def Let_def)
  with Cons.prems ent have rest: "create_partitions integ instance partitions ?db1 = (Inr u, db')"
    by (simp add: orm_bind_def getitem_def orm_return_def
        RelationPartition_objects_create_def execute_def Let_def)
  from Cons.IH [OF rest] obtain rows where
    rows: "db' = ?db1\<lparr>RelationPartition_objects := RelationPartition_objects ?db1 @ rows\<rparr>"
      "map partition_content rows = map given_content partitions"
      "\<forall>p \<in> set rows. partition_relation p = relation_pk instance"
    by blast
  have "partition_content ?row = given_content part"
    using ent by (simp add: partition_content_def given_content_def)
  with rows show ?case
    by (intro exI [of _ "?row # rows"]) simp
qed

lemma Relation_objects_create_success:
  assumes "Relation_objects_create integ a db = (Inr instance, db')"
  shows "instance = \<lparr>relation_pk = next_pk (map relation_pk (Relation_objects db)),
                      relation_attrs = a\<rparr>
     \<and> db' = db\<lparr>Relation_objects := Relation_objects db @ [instance]\<rparr>"
  using assms
  by (auto simp: Relation_objects_create_def Let_def orm_bind_def execute_def orm_return_def
      split: option.splits)

lemma fold_max_ge_start: "(a::nat) \<le> fold max pks a"
proof (induction pks arbitrary: a)
  case Nil
  then show ?case by simp
next
  case (Cons p pks)
  have "a \<le> max p a" by simp
  also have "\<dots> \<le> fold max pks (max p a)" by (rule Cons.IH)
  finally show ?case by simp
qed

lemma fold_max_ge_member: "x \<in> set pks \<Longrightarrow> (x::nat) \<le> fold max pks a"
proof (induction pks arbitrary: a)
  case Nil
  then show ?case by simp
next
  case (Cons p pks)
  show ?case
  proof (cases "x = p")
    case True
    have "x \<le> max p a" using True by simp
    also have "\<dots> \<le> fold max pks (max p a)" by (rule fold_max_ge_start)
    finally show ?thesis by simp
  next
    case False
    with Cons.prems have "x \<in> set pks" by simp
    from Cons.IH [OF this] show ?thesis by simp
  qed
qed

lemma next_pk_fresh: "next_pk pks \<notin> set pks"
  using fold_max_ge_member [of "next_pk pks" pks 0] by (auto simp: next_pk_def)

lemma super_update_success:
  assumes "super_update integ instance validated db = (Inr instance', db')"
  shows "instance' = instance\<lparr>relation_attrs :=
              fold (\<lambda>(attr, v) d. setattr d attr v) validated (relation_attrs instance)\<rparr>
     \<and> db' = db\<lparr>Relation_objects := saved instance' (Relation_objects db)\<rparr>"
  using assms
  by (auto simp: super_update_def Let_def orm_bind_def instance_save_def execute_def
      orm_return_def saved_def split: option.splits)

lemma delete_success:
  assumes "relationpartition_set_all_delete integ instance db = (Inr u, db')"
  shows "db' = db\<lparr>RelationPartition_objects := partitions_not_of db (relation_pk instance)\<rparr>"
  using assms
  by (auto simp: relationpartition_set_all_delete_def execute_def partitions_not_of_def
      split: option.splits)

lemma create_success:
  assumes "RelationSerializer_create integ vd db = (Inr instance, db')"
  shows "relation_pk instance \<notin> set (map relation_pk (Relation_objects db))
     \<and> relation_attrs instance = attrs vd
     \<and> (\<exists>rows. db' = db\<lparr>Relation_objects := Relation_objects db @ [instance],
                         RelationPartition_objects := RelationPartition_objects db @ rows\<rparr>
          \<and> map partition_content rows = map given_content (pop_relationpartition_set vd)
          \<and> (\<forall>p \<in> set rows. partition_relation p = relation_pk instance))"
proof -
  let ?body = "orm_bind (Relation_objects_create integ (attrs vd)) (\<lambda>instance.
            orm_bind (create_partitions integ instance (pop_relationpartition_set vd)) (\<lambda>_.
            orm_return instance))"
  from assms have "fst (atomic ?body db) = Inr instance" "snd (atomic ?body db) = db'"
    by (simp_all add: RelationSerializer_create_def Let_def)
  from atomic_success [OF this(1)] this(2) have body: "?body db = (Inr instance, db')" by simp
  from body obtain new db1 where
    c1': "Relation_objects_create integ (attrs vd) db = (Inr new, db1)" and
    r1: "orm_bind (create_partitions integ new (pop_relationpartition_set vd))
           (\<lambda>_. orm_return new) db1 = (Inr instance, db')"
    by (rule orm_bind_success)
  from r1 obtain u db2 where
    c2': "create_partitions integ new (pop_relationpartition_set vd) db1 = (Inr u, db2)" and
    r2: "orm_return new db2 = (Inr instance, db')"
    by (rule orm_bind_success)
  from orm_return_success [OF r2] c1' c2' have
    c1: "Relation_objects_create integ (attrs vd) db = (Inr instance, db1)" and
    c2: "create_partitions integ instance (pop_relationpartition_set vd) db1 = (Inr (), db')"
    by simp_all
  from Relation_objects_create_success [OF c1]
  have inst: "instance = \<lparr>relation_pk = next_pk (map relation_pk (Relation_objects db)),
                      relation_attrs = attrs vd\<rparr>"
    and db1: "db1 = db\<lparr>Relation_objects := Relation_objects db @ [instance]\<rparr>"
    by simp_all
  from inst have "relation_pk instance = next_pk (map relation_pk (Relation_objects db))"
    "relation_attrs instance = attrs vd"
    by (subst inst, simp)+
  with next_pk_fresh [of "map relation_pk (Relation_objects db)"]
  have fresh: "relation_pk instance \<notin> set (map relation_pk (Relation_objects db))"
    "relation_attrs instance = attrs vd"
    by simp_all
  from create_partitions_success [OF c2] obtain rows where
    "db' = db1\<lparr>RelationPartition_objects := RelationPartition_objects db1 @ rows\<rparr>"
    "map partition_content rows = map given_content (pop_relationpartition_set vd)"
    "\<forall>p \<in> set rows. partition_relation p = relation_pk instance"
    by blast
  with db1 fresh show ?thesis
    by (intro conjI exI [of _ rows]) simp_all
qed

lemma update_success:
  assumes "RelationSerializer_update integ instance vd db = (Inr instance', db')"
  shows "instance' = instance\<lparr>relation_attrs :=
              fold (\<lambda>(attr, v) d. setattr d attr v) (attrs vd) (relation_attrs instance)\<rparr>
     \<and> (\<exists>rows. db' = db\<lparr>Relation_objects := saved instance' (Relation_objects db),
                         RelationPartition_objects :=
                           partitions_not_of db (relation_pk instance) @ rows\<rparr>
          \<and> map partition_content rows = map given_content (pop_relationpartition_set vd)
          \<and> (\<forall>p \<in> set rows. partition_relation p = relation_pk instance))"
proof -
  let ?body = "orm_bind (super_update integ instance (attrs vd)) (\<lambda>instance.
            orm_bind (relationpartition_set_all_delete integ instance) (\<lambda>_.
            orm_bind (create_partitions integ instance (pop_relationpartition_set vd)) (\<lambda>_.
            orm_return instance)))"
  from assms have "fst (atomic ?body db) = Inr instance'" "snd (atomic ?body db) = db'"
    by (simp_all add: RelationSerializer_update_def Let_def)
  from atomic_success [OF this(1)] this(2) have body: "?body db = (Inr instance', db')" by simp
  from body obtain new db1 where
    c1': "super_update integ instance (attrs vd) db = (Inr new, db1)" and
    r1: "orm_bind (relationpartition_set_all_delete integ new) (\<lambda>_.
           orm_bind (create_partitions integ new (pop_relationpartition_set vd)) (\<lambda>_.
           orm_return new)) db1 = (Inr instance', db')"
    by (rule orm_bind_success)
  from r1 obtain u db2 where
    c2': "relationpartition_set_all_delete integ new db1 = (Inr u, db2)" and
    r2: "orm_bind (create_partitions integ new (pop_relationpartition_set vd)) (\<lambda>_.
           orm_return new) db2 = (Inr instance', db')"
    by (rule orm_bind_success)
  from r2 obtain u' db3 where
    c3': "create_partitions integ new (pop_relationpartition_set vd) db2 = (Inr u', db3)" and
    r3: "orm_return new db3 = (Inr instance', db')"
    by (rule orm_bind_success)
  from orm_return_success [OF r3] c1' c2' c3' have
    c1: "super_update integ instance (attrs vd) db = (Inr instance', db1)" and
    c2: "relationpartition_set_all_delete integ instance' db1 = (Inr (), db2)" and
    c3: "create_partitions integ instance' (pop_relationpartition_set vd) db2 = (Inr (), db')"
    by simp_all
  from super_update_success [OF c1]
  have inst: "instance' = instance\<lparr>relation_attrs :=
              fold (\<lambda>(attr, v) d. setattr d attr v) (attrs vd) (relation_attrs instance)\<rparr>"
    and db1: "db1 = db\<lparr>Relation_objects := saved instance' (Relation_objects db)\<rparr>"
    by simp_all
  from inst have pk: "relation_pk instance' = relation_pk instance"
    by (subst inst) simp
  from delete_success [OF c2]
  have db2: "db2 = db1\<lparr>RelationPartition_objects := partitions_not_of db1 (relation_pk instance')\<rparr>" .
  from create_partitions_success [OF c3] obtain rows where
    "db' = db2\<lparr>RelationPartition_objects := RelationPartition_objects db2 @ rows\<rparr>"
    "map partition_content rows = map given_content (pop_relationpartition_set vd)"
    "\<forall>p \<in> set rows. partition_relation p = relation_pk instance'"
    by blast
  with db1 db2 pk inst show ?thesis
    by (intro conjI exI [of _ rows]) (simp_all add: partitions_not_of_def)
qed

lemma atomic_rollback: "atomic body db = (Inl e, db') \<Longrightarrow> db' = db"
  by (auto simp: atomic_def split: prod.splits sum.splits)

lemma partitions_of_replaced:
  assumes "\<forall>p \<in> set rows. partition_relation p = pk"
  shows "filter (\<lambda>p. partition_relation p = pk)
           (filter (\<lambda>p. partition_relation p \<noteq> pk) old @ rows) = rows"
    and "filter (\<lambda>p. partition_relation p \<noteq> pk)
           (filter (\<lambda>p. partition_relation p \<noteq> pk) old @ rows)
         = filter (\<lambda>p. partition_relation p \<noteq> pk) old"
  using assms by (simp_all add: filter_id_conv filter_empty_conv)

lemmas serializer_defs =
  RelationSerializer_create_def RelationSerializer_update_def atomic_def orm_bind_def
  orm_return_def orm_raise_def Relation_objects_create_def
  RelationPartition_objects_create_def execute_def getitem_def dict_get_def
  pop_relationpartition_set_def super_update_def instance_save_def
  relationpartition_set_all_delete_def next_pk_def Let_def

text \<open>
  C9. \<^verbatim>\<open>RelationSerializer.create\<close> and \<^verbatim>\<open>RelationSerializer.update\<close> are atomic, for
  every database and every input. When \<^verbatim>\<open>create\<close> raises, the state of the database is the
  one before the call; when it returns, the new relation has a key no relation had, it is in
  the table with the attributes given, and one partition row has been added for each
  partition given, in order, each with the entity, label and position given and each
  referring to the new relation. When \<^verbatim>\<open>update\<close> raises, the state is the one before the
  call; when it returns, the relation has kept its key and is in the table, its partitions
  are exactly the ones given (every partition it had before is gone), and the partitions of
  the other relations and the other tables are as they were.
\<close>

theorem relation_serializer_atomic:
  "(\<forall>e db'. RelationSerializer_create integ vd db = (Inl e, db') \<longrightarrow> db' = db)
   \<and> (\<forall>new db'. RelationSerializer_create integ vd db = (Inr new, db') \<longrightarrow>
        relation_pk new \<notin> set (map relation_pk (Relation_objects db))
        \<and> relation_attrs new = attrs vd
        \<and> (\<exists>rows. db' = db\<lparr>Relation_objects := Relation_objects db @ [new],
                         RelationPartition_objects := RelationPartition_objects db @ rows\<rparr>
             \<and> map partition_content rows = map given_content (pop_relationpartition_set vd)
             \<and> (\<forall>p \<in> set rows. partition_relation p = relation_pk new)))
   \<and> (\<forall>e db'. RelationSerializer_update integ instance vd db = (Inl e, db') \<longrightarrow> db' = db)
   \<and> (\<forall>instance' db'.
        RelationSerializer_update integ instance vd db = (Inr instance', db') \<longrightarrow>
        relation_pk instance' = relation_pk instance
        \<and> instance' \<in> set (Relation_objects db')
        \<and> map partition_content (partitions_of db' (relation_pk instance))
            = map given_content (pop_relationpartition_set vd)
        \<and> partitions_not_of db' (relation_pk instance)
            = partitions_not_of db (relation_pk instance)
        \<and> Collection_objects db' = Collection_objects db
        \<and> Entity_objects db' = Entity_objects db)"
proof (intro conjI allI impI)
  fix e db' assume "RelationSerializer_create integ vd db = (Inl e, db')"
  then show "db' = db"
    by (auto simp: RelationSerializer_create_def Let_def dest: atomic_rollback)
next
  fix e db' assume "RelationSerializer_update integ instance vd db = (Inl e, db')"
  then show "db' = db"
    by (auto simp: RelationSerializer_update_def Let_def dest: atomic_rollback)
next
  fix new db' assume c: "RelationSerializer_create integ vd db = (Inr new, db')"
  from create_success [OF c]
  show "relation_pk new \<notin> set (map relation_pk (Relation_objects db))"
    "relation_attrs new = attrs vd"
    "\<exists>rows. db' = db\<lparr>Relation_objects := Relation_objects db @ [new],
                         RelationPartition_objects := RelationPartition_objects db @ rows\<rparr>
             \<and> map partition_content rows = map given_content (pop_relationpartition_set vd)
             \<and> (\<forall>p \<in> set rows. partition_relation p = relation_pk new)"
    by blast+
next
  fix instance' db'
  assume u: "RelationSerializer_update integ instance vd db = (Inr instance', db')"
  from update_success [OF u] obtain rows where
    inst: "instance' = instance\<lparr>relation_attrs :=
              fold (\<lambda>(attr, v) d. setattr d attr v) (attrs vd) (relation_attrs instance)\<rparr>"
    and db': "db' = db\<lparr>Relation_objects := saved instance' (Relation_objects db),
                         RelationPartition_objects :=
                           partitions_not_of db (relation_pk instance) @ rows\<rparr>"
    and rows: "map partition_content rows = map given_content (pop_relationpartition_set vd)"
      "\<forall>p \<in> set rows. partition_relation p = relation_pk instance"
    by blast
  from inst show "relation_pk instance' = relation_pk instance"
    by (subst inst) simp
  show "instance' \<in> set (Relation_objects db')"
    unfolding db' by (auto simp: saved_def)
  show "map partition_content (partitions_of db' (relation_pk instance))
            = map given_content (pop_relationpartition_set vd)"
    unfolding db' using rows partitions_of_replaced(1) [OF rows(2)]
    by (simp add: partitions_of_def partitions_not_of_def)
  show "partitions_not_of db' (relation_pk instance)
            = partitions_not_of db (relation_pk instance)"
    unfolding db' using partitions_of_replaced(2) [OF rows(2)]
    by (simp add: partitions_not_of_def)
  show "Collection_objects db' = Collection_objects db" "Entity_objects db' = Entity_objects db"
    unfolding db' by simp_all
qed

lemma create_vd_bad:
  "RelationSerializer_create fk_integrity vd_bad db_example = (Inl IntegrityError, db_example)"
  by (simp add: serializer_defs fk_integrity_def vd_bad_def db_example_def relation_1_def)

lemma update_vd_bad:
  "RelationSerializer_update fk_integrity relation_1 vd_bad db_example
     = (Inl IntegrityError, db_example)"
  by (simp add: serializer_defs fk_integrity_def vd_bad_def db_example_def relation_1_def)

lemma update_vd_good:
  "RelationSerializer_update fk_integrity relation_1 vd_good db_example =
     (Inr \<lparr>relation_pk = 1,
           relation_attrs = [(''collection'', PyInt 1), (''category'', PyStr ''series'')]\<rparr>,
      db_example
        \<lparr>Relation_objects :=
           [\<lparr>relation_pk = 1,
             relation_attrs = [(''collection'', PyInt 1), (''category'', PyStr ''series'')]\<rparr>],
         RelationPartition_objects :=
           [\<lparr>partition_pk = 1, partition_relation = 1, partition_entity = PyInt 3,
             partition_label = PyNone, partition_position = PyInt 5\<rparr>]\<rparr>)"
  by (simp add: serializer_defs fk_integrity_def vd_good_def db_example_def relation_1_def)

theorem relation_serializer_atomic_witness:
  "RelationSerializer_create fk_integrity vd_bad db_example = (Inl IntegrityError, db_example)
   \<and> fst (RelationSerializer_update fk_integrity relation_1 vd_good db_example)
       = Inr \<lparr>relation_pk = 1,
           relation_attrs = [(''collection'', PyInt 1), (''category'', PyStr ''series'')]\<rparr>
   \<and> map partition_content
        (partitions_of
           (snd (RelationSerializer_update fk_integrity relation_1 vd_good db_example)) 1)
       = [(PyInt 3, PyNone, PyInt 5)]"
proof -
  have pk: "relation_pk relation_1 = 1" by (simp add: relation_1_def)
  have given: "map given_content (pop_relationpartition_set vd_good) = [(PyInt 3, PyNone, PyInt 5)]"
    by (simp add: given_content_def pop_relationpartition_set_def vd_good_def dict_get_def)
  from relation_serializer_atomic [of fk_integrity vd_good db_example relation_1]
    update_vd_good pk given create_vd_bad
  show ?thesis by (metis fst_conv snd_conv)
qed

end
